theory Spec2Isabelle
  imports Main "HOL-Library.AList"
begin

section \<open>Python strings\<close>

text \<open>
  A Python \<open>str\<close> is modelled as a \<open>string\<close>; one \<open>char\<close> stands for one code point
  below 256, so \<open>length\<close> is Python's \<open>len\<close> on such strings.
\<close>

definition is_space :: "char \<Rightarrow> bool" where
  \<comment> \<open>\<open>str.isspace\<close> on one code point below 256: TAB, LF, VT, FF, CR, FS, GS, RS, US,
      space, NEL and the no-break space.\<close>
  "is_space c =
     (c \<in> set [CHR 0x09, CHR 0x0A, CHR 0x0B, CHR 0x0C, CHR 0x0D, CHR 0x1C, CHR 0x1D,
                CHR 0x1E, CHR 0x1F, CHR 0x20, CHR 0x85, CHR 0xA0])"

definition py_strip :: "string \<Rightarrow> string" where
  \<comment> \<open>\<open>s.strip()\<close>\<close>
  "py_strip s = rev (dropWhile is_space (rev (dropWhile is_space s)))"

definition py_strip_char :: "char \<Rightarrow> string \<Rightarrow> string" where
  \<comment> \<open>\<open>s.strip(c)\<close> for a single character \<open>c\<close>\<close>
  "py_strip_char c s = rev (dropWhile (\<lambda>x. x = c) (rev (dropWhile (\<lambda>x. x = c) s)))"

definition py_rstrip_char :: "char \<Rightarrow> string \<Rightarrow> string" where
  \<comment> \<open>\<open>s.rstrip(c)\<close> for a single character \<open>c\<close>\<close>
  "py_rstrip_char c s = rev (dropWhile (\<lambda>x. x = c) (rev s))"

definition lower_char :: "char \<Rightarrow> char" where
  \<comment> \<open>\<open>str.lower\<close> on one code point below 256: A-Z and the Latin-1 capitals
      (192-222 without the multiplication sign 215) move up by 32.\<close>
  "lower_char c =
     (let n = (of_char c :: nat)
      in if (65 \<le> n \<and> n \<le> 90) \<or> (192 \<le> n \<and> n \<le> 222 \<and> n \<noteq> 215)
         then char_of (n + 32) else c)"

definition py_lower :: "string \<Rightarrow> string" where
  "py_lower s = map lower_char s"

definition replace_char :: "char \<Rightarrow> char \<Rightarrow> string \<Rightarrow> string" where
  \<comment> \<open>\<open>s.replace(a, b)\<close> for single characters\<close>
  "replace_char a b s = map (\<lambda>c. if c = a then b else c) s"

definition remove_char :: "char \<Rightarrow> string \<Rightarrow> string" where
  \<comment> \<open>\<open>s.replace(a, '')\<close> for a single character\<close>
  "remove_char a s = filter (\<lambda>c. c \<noteq> a) s"

definition startswith :: "string \<Rightarrow> string \<Rightarrow> bool" where
  "startswith s p = (take (length p) s = p)"

definition endswith :: "string \<Rightarrow> string \<Rightarrow> bool" where
  "endswith s p = (length p \<le> length s \<and> drop (length s - length p) s = p)"

fun contains :: "string \<Rightarrow> string \<Rightarrow> bool" where
  \<comment> \<open>\<open>sub in s\<close>\<close>
  "contains sub [] = (sub = [])"
| "contains sub (c # cs) = (startswith (c # cs) sub \<or> contains sub cs)"

definition LF :: char where
  "LF = CHR 0x0A"

definition CR :: char where
  "CR = CHR 0x0D"

definition chomp_newline :: "string \<Rightarrow> string" where
  \<comment> \<open>the part of the subject a pattern ending in \<open>$\<close> has to cover: \<open>$\<close> matches at the
      end of the string and also just before a newline that is its last character\<close>
  "chomp_newline s = (if s \<noteq> [] \<and> last s = LF then butlast s else s)"

section \<open>JSON values\<close>

datatype json =
    JNull
  | JBool bool
  | JNum int
  | JStr string
  | JList "json list"
  | JObj "(string \<times> json) list"

fun truthy :: "json \<Rightarrow> bool" where
  \<comment> \<open>Python's truth value of a decoded JSON value\<close>
  "truthy JNull = False"
| "truthy (JBool b) = b"
| "truthy (JNum n) = (n \<noteq> 0)"
| "truthy (JStr s) = (s \<noteq> [])"
| "truthy (JList xs) = (xs \<noteq> [])"
| "truthy (JObj kvs) = (kvs \<noteq> [])"

section \<open>backend/security.py\<close>

datatype error = ValidationError string

definition MAX_ROOM_CODE_LENGTH :: nat where "MAX_ROOM_CODE_LENGTH = 50"
definition MAX_DEVELOPER_ID_LENGTH :: nat where "MAX_DEVELOPER_ID_LENGTH = 30"
definition MAX_COMMIT_MESSAGE_LENGTH :: nat where "MAX_COMMIT_MESSAGE_LENGTH = 200"
definition MAX_BRANCH_LENGTH :: nat where "MAX_BRANCH_LENGTH = 50"

definition lower_alpha :: "char \<Rightarrow> bool" where
  "lower_alpha c = (c \<in> set ''abcdefghijklmnopqrstuvwxyz'')"

definition upper_alpha :: "char \<Rightarrow> bool" where
  "upper_alpha c = (c \<in> set ''ABCDEFGHIJKLMNOPQRSTUVWXYZ'')"

definition digit :: "char \<Rightarrow> bool" where
  "digit c = (c \<in> set ''0123456789'')"

definition room_code_char :: "char \<Rightarrow> bool" where
  \<comment> \<open>\<open>[a-z0-9-]\<close>\<close>
  "room_code_char c = (lower_alpha c \<or> digit c \<or> c = CHR ''-'')"

definition developer_id_char :: "char \<Rightarrow> bool" where
  \<comment> \<open>\<open>[a-zA-Z0-9_-]\<close>\<close>
  "developer_id_char c =
     (lower_alpha c \<or> upper_alpha c \<or> digit c \<or> c = CHR ''_'' \<or> c = CHR ''-'')"

definition commit_hash_char :: "char \<Rightarrow> bool" where
  \<comment> \<open>\<open>[a-f0-9]\<close>\<close>
  "commit_hash_char c = (c \<in> set ''abcdef'' \<or> digit c)"

definition branch_char :: "char \<Rightarrow> bool" where
  \<comment> \<open>\<open>[a-zA-Z0-9/_-]\<close>\<close>
  "branch_char c =
     (lower_alpha c \<or> upper_alpha c \<or> digit c \<or> c = CHR ''/'' \<or> c = CHR ''_''
      \<or> c = CHR ''-'')"

definition ROOM_CODE_PATTERN :: "string \<Rightarrow> bool" where
  \<comment> \<open>\<open>re.compile(r'^[a-z0-9-]+$').match(s)\<close> finds a match\<close>
  "ROOM_CODE_PATTERN s = (let b = chomp_newline s in b \<noteq> [] \<and> list_all room_code_char b)"

definition DEVELOPER_ID_PATTERN :: "string \<Rightarrow> bool" where
  \<comment> \<open>\<open>^[a-zA-Z0-9_-]+$\<close>\<close>
  "DEVELOPER_ID_PATTERN s =
     (let b = chomp_newline s in b \<noteq> [] \<and> list_all developer_id_char b)"

definition COMMIT_HASH_PATTERN :: "string \<Rightarrow> bool" where
  \<comment> \<open>\<open>^[a-f0-9]{7,40}$\<close>\<close>
  "COMMIT_HASH_PATTERN s =
     (let b = chomp_newline s
      in 7 \<le> length b \<and> length b \<le> 40 \<and> list_all commit_hash_char b)"

definition BRANCH_PATTERN :: "string \<Rightarrow> bool" where
  \<comment> \<open>\<open>^[a-zA-Z0-9/_-]+$\<close>\<close>
  "BRANCH_PATTERN s = (let b = chomp_newline s in b \<noteq> [] \<and> list_all branch_char b)"

subsection \<open>The URL pattern\<close>

text \<open>
  \<open>^https?://([a-z0-9.-]+\.[a-z]{2,}|localhost|127\.0\.0\.1|0\.0\.0\.0)(:[0-9]+)?(/.*)?$\<close>
  with \<open>re.IGNORECASE\<close>. Only the existence of a match is used by the code, so the
  backtracking search is written as a search over the places where the host ends and
  where its last dot is.
\<close>

definition ci_alpha :: "char \<Rightarrow> bool" where
  \<comment> \<open>\<open>[a-z]\<close>, ignoring case\<close>
  "ci_alpha c = (lower_alpha c \<or> upper_alpha c)"

definition domain_char :: "char \<Rightarrow> bool" where
  \<comment> \<open>\<open>[a-z0-9.-]\<close>, ignoring case\<close>
  "domain_char c = (ci_alpha c \<or> digit c \<or> c = CHR ''.'' \<or> c = CHR ''-'')"

definition ci_equal :: "string \<Rightarrow> string \<Rightarrow> bool" where
  \<comment> \<open>a literal of the pattern (written in lower case) against a text, ignoring case\<close>
  "ci_equal lit s = (py_lower s = lit)"

definition domain_with_tld :: "string \<Rightarrow> bool" where
  \<comment> \<open>\<open>[a-z0-9.-]+\.[a-z]{2,}\<close> covers all of \<open>h\<close>\<close>
  "domain_with_tld h =
     list_ex (\<lambda>i. 0 < i \<and> list_all domain_char (take i h) \<and> h ! i = CHR ''.''
                 \<and> 2 \<le> length (drop (Suc i) h) \<and> list_all ci_alpha (drop (Suc i) h))
       [0..<length h]"

definition url_host :: "string \<Rightarrow> bool" where
  "url_host h =
     (domain_with_tld h \<or> ci_equal ''localhost'' h \<or> h = ''127.0.0.1'' \<or> h = ''0.0.0.0'')"

definition url_path_opt :: "string \<Rightarrow> bool" where
  \<comment> \<open>\<open>(/.*)?\<close> up to the end; the dot does not match a newline\<close>
  "url_path_opt t = (t = [] \<or> (hd t = CHR ''/'' \<and> LF \<notin> set (tl t)))"

definition url_port_path :: "string \<Rightarrow> bool" where
  \<comment> \<open>\<open>(:[0-9]+)?(/.*)?\<close> up to the end\<close>
  "url_port_path t =
     (url_path_opt t \<or>
      (t \<noteq> [] \<and> hd t = CHR '':'' \<and> takeWhile digit (tl t) \<noteq> []
         \<and> url_path_opt (dropWhile digit (tl t))))"

definition url_after_scheme :: "string \<Rightarrow> bool" where
  "url_after_scheme r =
     list_ex (\<lambda>n. url_host (take n r) \<and> url_port_path (drop n r)) [0..<Suc (length r)]"

definition URL_PATTERN :: "string \<Rightarrow> bool" where
  "URL_PATTERN s =
     (let b = chomp_newline s
      in (ci_equal ''http://'' (take 7 b) \<and> url_after_scheme (drop 7 b))
       \<or> (ci_equal ''https://'' (take 8 b) \<and> url_after_scheme (drop 8 b)))"

subsection \<open>The validators\<close>

fun validate_room_code :: "json \<Rightarrow> error + string" where
  "validate_room_code (JStr room_code) =
     (if room_code = [] then
        Inl (ValidationError ''room_code is required and must be a string'')
      else if length room_code > MAX_ROOM_CODE_LENGTH then
        Inl (ValidationError ''room_code too long (max 50 chars)'')
      else if \<not> ROOM_CODE_PATTERN room_code then
        Inl (ValidationError
          ''room_code must contain only lowercase letters, numbers, and hyphens'')
      else if startswith room_code ''-'' \<or> endswith room_code ''-'' then
        Inl (ValidationError ''room_code cannot start or end with hyphen'')
      else Inr (py_strip room_code))"
| "validate_room_code _ =
     Inl (ValidationError ''room_code is required and must be a string'')"

fun validate_developer_id :: "json \<Rightarrow> error + string" where
  "validate_developer_id (JStr developer_id) =
     (if developer_id = [] then
        Inl (ValidationError ''developer_id is required and must be a string'')
      else if length developer_id > MAX_DEVELOPER_ID_LENGTH then
        Inl (ValidationError ''developer_id too long (max 30 chars)'')
      else if \<not> DEVELOPER_ID_PATTERN developer_id then
        Inl (ValidationError
          ''developer_id must contain only letters, numbers, underscores, and hyphens'')
      else Inr (py_strip developer_id))"
| "validate_developer_id _ =
     Inl (ValidationError ''developer_id is required and must be a string'')"

fun validate_subdomain_url :: "json \<Rightarrow> error + string" where
  "validate_subdomain_url (JStr url) =
     (if url = [] then
        Inl (ValidationError ''subdomain_url is required and must be a string'')
      else if \<not> URL_PATTERN url then
        Inl (ValidationError ''subdomain_url must be a valid HTTP/HTTPS URL'')
      else if \<not> (contains ''dev-'' url \<or> contains ''localhost'' url
                  \<or> contains ''127.0.0.1'' url) then
        Inl (ValidationError ''subdomain_url should be a dev-* subdomain or localhost'')
      else Inr (py_rstrip_char (CHR ''/'') (py_strip url)))"
| "validate_subdomain_url _ =
     Inl (ValidationError ''subdomain_url is required and must be a string'')"

fun validate_commit_hash :: "json \<Rightarrow> error + string" where
  "validate_commit_hash (JStr commit_hash) =
     (if commit_hash = [] then
        Inl (ValidationError ''commit_hash is required and must be a string'')
      else if \<not> COMMIT_HASH_PATTERN commit_hash then
        Inl (ValidationError ''commit_hash must be a valid Git SHA (7-40 hex chars)'')
      else Inr (py_lower (py_strip commit_hash)))"
| "validate_commit_hash _ =
     Inl (ValidationError ''commit_hash is required and must be a string'')"

fun validate_branch :: "json \<Rightarrow> error + string" where
  "validate_branch (JStr branch) =
     (if branch = [] then
        Inl (ValidationError ''branch is required and must be a string'')
      else if length branch > MAX_BRANCH_LENGTH then
        Inl (ValidationError ''branch too long (max 50 chars)'')
      else if \<not> BRANCH_PATTERN branch then
        Inl (ValidationError ''branch contains invalid characters'')
      else Inr (py_strip branch))"
| "validate_branch _ =
     Inl (ValidationError ''branch is required and must be a string'')"

function strip_tags :: "string \<Rightarrow> string" where
  \<comment> \<open>\<open>re.sub(r'<[^>]+>', '', s)\<close>: scanning from the left, a \<open><\<close> starts a match when
      the next \<open>>\<close> comes after at least one other character; the match is deleted and
      the scan goes on behind it. Any other character is kept.\<close>
  "strip_tags [] = []"
| "strip_tags (c # cs) =
     (if c = CHR ''<'' \<and> takeWhile (\<lambda>x. x \<noteq> CHR ''>'') cs \<noteq> []
         \<and> dropWhile (\<lambda>x. x \<noteq> CHR ''>'') cs \<noteq> []
      then strip_tags (tl (dropWhile (\<lambda>x. x \<noteq> CHR ''>'') cs))
      else c # strip_tags cs)"
  by pat_completeness auto
termination
proof (relation "measure length")
  fix c :: char and cs :: string
  have "length (tl (dropWhile (\<lambda>x. x \<noteq> CHR ''>'') cs)) \<le> length cs"
    using length_dropWhile_le [of "\<lambda>x. x \<noteq> CHR ''>''" cs] by simp
  then show "(tl (dropWhile (\<lambda>x. x \<noteq> CHR ''>'') cs), c # cs) \<in> measure length"
    by simp
qed simp_all

fun validate_commit_message :: "json \<Rightarrow> error + string" where
  "validate_commit_message (JStr message) =
     (if message = [] then
        Inl (ValidationError ''commit_message is required and must be a string'')
      else
        let message = strip_tags message;
            message = remove_char CR (replace_char LF (CHR '' '') message);
            message = py_strip message
        in if length message > MAX_COMMIT_MESSAGE_LENGTH then
             Inl (ValidationError ''commit_message too long (max 200 chars)'')
           else Inr message)"
| "validate_commit_message _ =
     Inl (ValidationError ''commit_message is required and must be a string'')"

fun collapse_hyphens :: "string \<Rightarrow> string" where
  \<comment> \<open>\<open>re.sub(r'-+', '-', s)\<close>: of every run of hyphens only the last one stays\<close>
  "collapse_hyphens [] = []"
| "collapse_hyphens [c] = [c]"
| "collapse_hyphens (c # d # cs) =
     (if c = CHR ''-'' \<and> d = CHR ''-'' then collapse_hyphens (d # cs)
      else c # collapse_hyphens (d # cs))"

fun validate_project_name :: "json \<Rightarrow> error + string" where
  "validate_project_name (JStr project_name) =
     (if project_name = [] then
        Inl (ValidationError ''project_name is required and must be a string'')
      else
        let room_code = py_lower project_name;
            room_code = replace_char (CHR ''_'') (CHR ''-'')
                          (replace_char (CHR '' '') (CHR ''-'') room_code);
            room_code = filter room_code_char room_code;
            room_code = collapse_hyphens room_code;
            room_code = py_strip_char (CHR ''-'') room_code
        in if room_code = [] then
             Inl (ValidationError ''project_name results in empty room_code'')
           else if length room_code > MAX_ROOM_CODE_LENGTH then
             Inl (ValidationError ''project_name too long (max 50 chars)'')
           else Inr room_code)"
| "validate_project_name _ =
     Inl (ValidationError ''project_name is required and must be a string'')"

section \<open>backend/app.py\<close>

subsection \<open>State\<close>

text \<open>
  A participant entry is either the bare tunnel URL (the shape \<open>create_room\<close> writes) or
  the dictionary \<open>{"subdomain_url": ..., "connected": ...}\<close>; every dictionary the code
  writes has both keys, so it is a constructor with both fields.
\<close>

datatype participant = Legacy string | Structured string bool

text \<open>
  The keys of a commit dictionary carry the prefix \<open>c_\<close>, since the view functions
  use the bare names for their local variables.
\<close>

record commit =
  c_commit_hash :: string
  c_branch :: string
  c_commit_message :: string
  c_developer_id :: string
  c_timestamp :: int

text \<open>
  \<open>participants\<close> is an \<open>OrderedDict\<close> and \<open>rooms\<close> a \<open>dict\<close>: association lists in
  insertion order, read with \<open>map_of\<close>, written with \<open>AList.update\<close> (an existing key
  keeps its place, a new key goes to the end) and \<open>AList.delete\<close>.
\<close>

record room =
  participants :: "(string \<times> participant) list"
  commits :: "commit list"

type_synonym rooms = "(string \<times> room) list"

text \<open>
  What a view function reads of the request: the JSON content type flag, the decoded
  body (\<open>None\<close> when the body is not parseable JSON, so that \<open>request.get_json()\<close>
  raises \<open>BadRequest\<close>), the \<open>Authorization\<close> header and the query parameters.
\<close>

record request =
  is_json :: bool
  get_json :: "json option"
  authorization :: "string option"
  args :: "(string \<times> string) list"

text \<open>
  A view function returns a JSON body with a status, or lets an exception escape: an
  ordinary exception (\<open>Raised\<close>), which the framework turns into its own 500 page, or an
  HTTP exception of the framework (\<open>Aborted\<close>), answered with the framework's page for
  that status. Neither page is a JSON object.
\<close>

datatype reply = Reply nat json | Raised string | Aborted nat

fun status :: "reply \<Rightarrow> nat" where
  "status (Reply n b) = n"
| "status (Raised e) = 500"
| "status (Aborted n) = n"

fun has_field :: "reply \<Rightarrow> string \<Rightarrow> bool" where
  \<comment> \<open>the body is a JSON object with this key\<close>
  "has_field (Reply n (JObj kvs)) k = (k \<in> set (map fst kvs))"
| "has_field _ k = False"

fun field :: "reply \<Rightarrow> string \<Rightarrow> json option" where
  "field (Reply n (JObj kvs)) k = map_of kvs k"
| "field _ k = None"

text \<open>The two fire-and-forget messages to the proxy.\<close>

datatype notification =
    ActiveDeveloper string string  \<comment> \<open>\<open>{"room_code", "active_developer"}\<close>\<close>
  | RoomUpdate string  \<comment> \<open>\<open>{"room_code", "event_type": "room_update"}\<close>\<close>

subsection \<open>Decorators\<close>

fun json_contains :: "json \<Rightarrow> string \<Rightarrow> bool option" where
  \<comment> \<open>\<open>field in data\<close>; \<open>None\<close> is the \<open>TypeError\<close> of a value that is no container\<close>
  "json_contains (JObj kvs) f = Some (f \<in> set (map fst kvs))"
| "json_contains (JList xs) f = Some (JStr f \<in> set xs)"
| "json_contains (JStr s) f = Some (contains f s)"
| "json_contains _ f = None"

fun join_comma :: "string list \<Rightarrow> string" where
  \<comment> \<open>\<open>', '.join(xs)\<close>\<close>
  "join_comma [] = []"
| "join_comma [x] = x"
| "join_comma (x # y # ys) = x @ '', '' @ join_comma (y # ys)"

definition validate_request_json :: "string list \<Rightarrow> request \<Rightarrow> reply option" where
  \<comment> \<open>\<open>Some r\<close>: the decorator answers \<open>r\<close> itself; \<open>None\<close>: the view function runs\<close>
  "validate_request_json required_fields req =
     (if \<not> is_json req then
        Some (Reply 400 (JObj [(''error'', JStr ''Invalid content type''),
                               (''message'', JStr ''Request must be application/json'')]))
      else
        (case get_json req of
           None \<Rightarrow> Some (Aborted 400)
         | Some data \<Rightarrow>
             if \<not> truthy data then
               Some (Reply 400 (JObj [(''error'', JStr ''Invalid JSON''),
                                      (''message'', JStr ''Request body must be valid JSON'')]))
             else if list_ex (\<lambda>f. json_contains data f = None) required_fields then
               Some (Raised ''TypeError'')
             else
               let missing_fields =
                     filter (\<lambda>f. json_contains data f = Some False) required_fields
               in if missing_fields \<noteq> [] then
                    Some (Reply 400 (JObj [(''error'', JStr ''Missing required fields''),
                      (''message'', JStr (''Required fields: '' @ join_comma missing_fields))]))
                  else None))"

definition require_admin_auth :: "string \<Rightarrow> request \<Rightarrow> reply option" where
  \<comment> \<open>\<open>ADMIN_API_KEY\<close> is read from the environment when the module is loaded\<close>
  "require_admin_auth ADMIN_API_KEY req =
     (let auth_header = (case authorization req of Some h \<Rightarrow> h | None \<Rightarrow> []);
          provided_key =
            (if startswith auth_header ''Bearer '' then drop 7 auth_header
             else (case map_of (args req) ''api_key'' of Some k \<Rightarrow> k | None \<Rightarrow> []))
      in if provided_key = [] then
           Some (Reply 401 (JObj [(''error'', JStr ''Authentication required''),
             (''message'',
              JStr ''Provide API key in Authorization header or api_key parameter'')]))
         else if provided_key \<noteq> ADMIN_API_KEY then
           Some (Reply 403 (JObj [(''error'', JStr ''Invalid API key''),
             (''message'', JStr ''The provided API key is invalid'')]))
         else None)"

subsection \<open>Reading and validating the body\<close>

fun and_then :: "reply + 'a \<Rightarrow> ('a \<Rightarrow> reply + 'b) \<Rightarrow> reply + 'b" where
  \<comment> \<open>sequencing inside a view function: \<open>Inl r\<close> is an early \<open>return r\<close>\<close>
  "and_then (Inl r) k = Inl r"
| "and_then (Inr x) k = k x"

fun subscript :: "json \<Rightarrow> string \<Rightarrow> reply + json" where
  \<comment> \<open>\<open>data[key]\<close>\<close>
  "subscript (JObj kvs) key =
     (case map_of kvs key of Some v \<Rightarrow> Inr v | None \<Rightarrow> Inl (Raised ''KeyError''))"
| "subscript _ key = Inl (Raised ''TypeError'')"

definition validation_failed :: "string \<Rightarrow> reply" where
  "validation_failed e =
     Reply 400 (JObj [(''error'', JStr ''Validation failed''), (''message'', JStr e)])"

fun checked :: "error + string \<Rightarrow> reply + string" where
  \<comment> \<open>\<open>except ValidationError as e: return jsonify(...), 400\<close>\<close>
  "checked (Inl (ValidationError e)) = Inl (validation_failed e)"
| "checked (Inr v) = Inr v"

definition public_url :: "string \<Rightarrow> string" where
  "public_url room_code = ''http://'' @ room_code @ ''.m-act.live''"

subsection \<open>Room lifecycle\<close>

definition create_room_inputs :: "json \<Rightarrow> reply + (string \<times> string \<times> string)" where
  \<comment> \<open>the \<open>try\<close> block of \<open>create_room\<close>\<close>
  "create_room_inputs data =
     and_then (subscript data ''project_name'') (\<lambda>v.
     and_then (checked (validate_project_name v)) (\<lambda>room_code.
     and_then (subscript data ''developer_id'') (\<lambda>v.
     and_then (checked (validate_developer_id v)) (\<lambda>developer_id.
     and_then (subscript data ''subdomain_url'') (\<lambda>v.
     and_then (checked (validate_subdomain_url v)) (\<lambda>subdomain_url.
     Inr (room_code, developer_id, subdomain_url)))))))"

definition create_room :: "request \<Rightarrow> rooms \<Rightarrow> reply \<times> notification list \<times> rooms" where
  "create_room req rooms =
     (case validate_request_json [''project_name'', ''developer_id'', ''subdomain_url''] req of
        Some r \<Rightarrow> (r, [], rooms)
      | None \<Rightarrow>
         (case get_json req of
            None \<Rightarrow> (Aborted 400, [], rooms)
          | Some data \<Rightarrow>
            case
              create_room_inputs data
            of
              Inl r \<Rightarrow> (r, [], rooms)
            | Inr (room_code, developer_id, subdomain_url) \<Rightarrow>
                if map_of rooms room_code \<noteq> None then
                  (Reply 409
                     (JObj [(''error'', JStr ''Room with this project name already exists'')]),
                   [], rooms)
                else
                  (Reply 201 (JObj [(''room_code'', JStr room_code),
                                    (''public_url'', JStr (public_url room_code))]),
                   [],
                   AList.update room_code
                     \<lparr>participants = [(developer_id, Legacy subdomain_url)], commits = []\<rparr>
                     rooms)))"

definition join_room_inputs :: "json \<Rightarrow> reply + (string \<times> string \<times> string)" where
  \<comment> \<open>the \<open>try\<close> block of \<open>join_room\<close>\<close>
  "join_room_inputs data =
     and_then (subscript data ''room_code'') (\<lambda>v.
     and_then (checked (validate_room_code v)) (\<lambda>room_code.
     and_then (subscript data ''developer_id'') (\<lambda>v.
     and_then (checked (validate_developer_id v)) (\<lambda>developer_id.
     and_then (subscript data ''subdomain_url'') (\<lambda>v.
     and_then (checked (validate_subdomain_url v)) (\<lambda>subdomain_url.
     Inr (room_code, developer_id, subdomain_url)))))))"

definition join_room :: "request \<Rightarrow> rooms \<Rightarrow> reply \<times> notification list \<times> rooms" where
  "join_room req rooms =
     (case validate_request_json [''room_code'', ''developer_id'', ''subdomain_url''] req of
        Some r \<Rightarrow> (r, [], rooms)
      | None \<Rightarrow>
         (case get_json req of
            None \<Rightarrow> (Aborted 400, [], rooms)
          | Some data \<Rightarrow>
            case
              join_room_inputs data
            of
              Inl r \<Rightarrow> (r, [], rooms)
            | Inr (room_code, developer_id, subdomain_url) \<Rightarrow>
               (case map_of rooms room_code of
                  None \<Rightarrow> (Reply 404 (JObj [(''error'', JStr ''Room not found'')]), [], rooms)
                | Some room \<Rightarrow>
                    let rooms' = AList.update room_code
                          (room\<lparr>participants :=
                             AList.update developer_id (Structured subdomain_url True)
                               (participants room)\<rparr>) rooms
                    in if map_of (participants room) developer_id \<noteq> None then
                         (Reply 200 (JObj [(''status'', JStr ''reconnected''),
                                           (''public_url'', JStr (public_url room_code))]),
                          [RoomUpdate room_code], rooms')
                       else
                         (Reply 200 (JObj [(''status'', JStr ''success''),
                                           (''public_url'', JStr (public_url room_code))]),
                          [RoomUpdate room_code], rooms'))))"

fun mark_disconnected :: "participant \<Rightarrow> participant" where
  "mark_disconnected (Structured subdomain_url connected) = Structured subdomain_url False"
| "mark_disconnected (Legacy subdomain_url) = Structured subdomain_url False"

definition leave_room_inputs :: "json \<Rightarrow> reply + (string \<times> string)" where
  \<comment> \<open>the \<open>try\<close> block of \<open>leave_room\<close>\<close>
  "leave_room_inputs data =
     and_then (subscript data ''room_code'') (\<lambda>v.
     and_then (checked (validate_room_code v)) (\<lambda>room_code.
     and_then (subscript data ''developer_id'') (\<lambda>v.
     and_then (checked (validate_developer_id v)) (\<lambda>developer_id.
     Inr (room_code, developer_id)))))"

definition leave_room :: "request \<Rightarrow> rooms \<Rightarrow> reply \<times> notification list \<times> rooms" where
  "leave_room req rooms =
     (case validate_request_json [''room_code'', ''developer_id''] req of
        Some r \<Rightarrow> (r, [], rooms)
      | None \<Rightarrow>
         (case get_json req of
            None \<Rightarrow> (Aborted 400, [], rooms)
          | Some data \<Rightarrow>
            case
              leave_room_inputs data
            of
              Inl r \<Rightarrow> (r, [], rooms)
            | Inr (room_code, developer_id) \<Rightarrow>
               (case map_of rooms room_code of
                  None \<Rightarrow> (Reply 404 (JObj [(''error'', JStr ''Room not found'')]), [], rooms)
                | Some room \<Rightarrow>
                   (case map_of (participants room) developer_id of
                      None \<Rightarrow>
                        (Reply 404 (JObj [(''error'', JStr ''Developer not in room'')]), [], rooms)
                    | Some participant_info \<Rightarrow>
                        (Reply 200 (JObj [(''status'', JStr ''success'')]),
                         [RoomUpdate room_code],
                         AList.update room_code
                           (room\<lparr>participants :=
                              AList.update developer_id (mark_disconnected participant_info)
                                (participants room)\<rparr>) rooms)))))"

definition report_commit_inputs ::
  "json \<Rightarrow> reply + (string \<times> string \<times> string \<times> string \<times> string)" where
  \<comment> \<open>the \<open>try\<close> block of \<open>report_commit\<close>\<close>
  "report_commit_inputs data =
     and_then (subscript data ''room_code'') (\<lambda>v.
     and_then (checked (validate_room_code v)) (\<lambda>room_code.
     and_then (subscript data ''developer_id'') (\<lambda>v.
     and_then (checked (validate_developer_id v)) (\<lambda>developer_id.
     and_then (subscript data ''commit_hash'') (\<lambda>v.
     and_then (checked (validate_commit_hash v)) (\<lambda>commit_hash.
     and_then (subscript data ''branch'') (\<lambda>v.
     and_then (checked (validate_branch v)) (\<lambda>branch.
     and_then (subscript data ''commit_message'') (\<lambda>v.
     and_then (checked (validate_commit_message v)) (\<lambda>commit_message.
     Inr (room_code, developer_id, commit_hash, branch, commit_message)))))))))))"

definition report_commit ::
  "int \<Rightarrow> request \<Rightarrow> rooms \<Rightarrow> reply \<times> notification list \<times> rooms" where
  \<comment> \<open>\<open>now\<close> is what \<open>time.time()\<close> returns during the call\<close>
  "report_commit now req rooms =
     (case validate_request_json
             [''room_code'', ''developer_id'', ''commit_hash'', ''branch'', ''commit_message'']
             req of
        Some r \<Rightarrow> (r, [], rooms)
      | None \<Rightarrow>
         (case get_json req of
            None \<Rightarrow> (Aborted 400, [], rooms)
          | Some data \<Rightarrow>
            case
              report_commit_inputs data
            of
              Inl r \<Rightarrow> (r, [], rooms)
            | Inr (room_code, developer_id, commit_hash, branch, commit_message) \<Rightarrow>
               (case map_of rooms room_code of
                  None \<Rightarrow> (Reply 404 (JObj [(''error'', JStr ''Room not found'')]), [], rooms)
                | Some room \<Rightarrow>
                    if map_of (participants room) developer_id = None then
                      (Reply 403 (JObj [(''error'', JStr ''Developer not in room'')]), [], rooms)
                    else
                      let previous_active =
                            (if commits room \<noteq> [] then Some (c_developer_id (last (commits room)))
                             else None);
                          commit = \<lparr>c_commit_hash = commit_hash, c_branch = branch,
                                    c_commit_message = commit_message,
                                    c_developer_id = developer_id, c_timestamp = now\<rparr>;
                          rooms' = AList.update room_code
                                     (room\<lparr>commits := commits room @ [commit]\<rparr>) rooms
                      in (Reply 200 (JObj [(''status'', JStr ''success'')]),
                          (if previous_active \<noteq> Some developer_id
                           then [ActiveDeveloper room_code developer_id]
                           else [RoomUpdate room_code]),
                          rooms'))))"

subsection \<open>Active developer and status\<close>

fun is_connected :: "participant \<Rightarrow> bool" where
  \<comment> \<open>\<open>info.get("connected", True) if isinstance(info, dict) else True\<close>\<close>
  "is_connected (Structured subdomain_url connected) = connected"
| "is_connected (Legacy subdomain_url) = True"

fun subdomain_url_of :: "participant \<Rightarrow> string" where
  \<comment> \<open>\<open>info.get("subdomain_url") if isinstance(info, dict) else info\<close>\<close>
  "subdomain_url_of (Structured subdomain_url connected) = subdomain_url"
| "subdomain_url_of (Legacy subdomain_url) = subdomain_url"

definition is_set :: "string option \<Rightarrow> bool" where
  \<comment> \<open>the truth value of \<open>active_developer\<close>: neither \<open>None\<close> nor the empty string\<close>
  "is_set a = (case a of None \<Rightarrow> False | Some d \<Rightarrow> d \<noteq> [])"

text \<open>The two loops of \<open>get_active_url\<close> (each returns at its \<open>break\<close>).\<close>

fun url_commit_scan :: "commit list \<Rightarrow> (string \<times> participant) list \<Rightarrow> string option" where
  \<comment> \<open>\<open>for commit in reversed(commits)\<close>, given the reversed list\<close>
  "url_commit_scan [] ps = None"
| "url_commit_scan (commit # rest) ps =
     (let dev_id = c_developer_id commit
      in case map_of ps dev_id of
           Some info \<Rightarrow> if is_connected info then Some dev_id else url_commit_scan rest ps
         | None \<Rightarrow> url_commit_scan rest ps)"

fun url_first_connected :: "(string \<times> participant) list \<Rightarrow> string option" where
  \<comment> \<open>\<open>for dev_id, info in participants.items()\<close>\<close>
  "url_first_connected [] = None"
| "url_first_connected ((dev_id, info) # rest) =
     (if is_connected info then Some dev_id else url_first_connected rest)"

definition url_active_developer ::
  "commit list \<Rightarrow> (string \<times> participant) list \<Rightarrow> string option" where
  \<comment> \<open>the value of \<open>active_developer\<close> in \<open>get_active_url\<close> before the URL is looked up\<close>
  "url_active_developer cs ps =
     (let active_developer = None;
          active_developer =
            (if cs \<noteq> [] then
               (case url_commit_scan (rev cs) ps of Some d \<Rightarrow> Some d
                | None \<Rightarrow> active_developer)
             else active_developer);
          active_developer =
            (if \<not> is_set active_developer \<and> ps \<noteq> [] then
               (case url_first_connected ps of Some d \<Rightarrow> Some d | None \<Rightarrow> active_developer)
             else active_developer);
          active_developer =
            (if \<not> is_set active_developer \<and> ps \<noteq> [] then Some (fst (hd ps))
             else active_developer)
      in active_developer)"

definition no_active_url :: reply where
  "no_active_url = Reply 200 (JObj [(''active_url'', JNull)])"

definition get_active_url :: "(string \<Rightarrow> string option) \<Rightarrow> request \<Rightarrow> rooms \<Rightarrow> reply" where
  \<comment> \<open>\<open>netloc\<close> is \<open>urlparse(url).netloc\<close> of the standard library, \<open>None\<close> where it
      raises\<close>
  "get_active_url netloc req rooms =
     (case (case map_of (args req) ''room'' of
              None \<Rightarrow> Inr None
            | Some room_code \<Rightarrow>
                if room_code \<noteq> [] then
                  (case validate_room_code (JStr room_code) of
                     Inl (ValidationError e) \<Rightarrow> Inl (validation_failed e)
                   | Inr v \<Rightarrow> Inr (Some v))
                else Inr (Some room_code))
      of
        Inl r \<Rightarrow> r
      | Inr None \<Rightarrow> no_active_url
      | Inr (Some room_code) \<Rightarrow>
          if room_code = [] then no_active_url
          else
            (case map_of rooms room_code of
               None \<Rightarrow> no_active_url
             | Some room \<Rightarrow>
                 if participants room = [] then no_active_url
                 else
                   (case url_active_developer (commits room) (participants room) of
                      None \<Rightarrow> no_active_url
                    | Some active_developer \<Rightarrow>
                        if active_developer = [] then no_active_url
                        else
                          (case map_of (participants room) active_developer of
                             None \<Rightarrow> Raised ''KeyError''
                           | Some info \<Rightarrow>
                               let subdomain_url = subdomain_url_of info
                               in if subdomain_url \<noteq> [] then
                                    (case netloc subdomain_url of
                                       Some frp_host \<Rightarrow>
                                         Reply 200 (JObj [(''active_url'',
                                           JStr (''http://127.0.0.1:7101|Host:'' @ frp_host))])
                                     | None \<Rightarrow> no_active_url)
                                  else no_active_url))))"

text \<open>The same two loops as they stand in \<open>get_room_status\<close>.\<close>

fun status_commit_scan ::
  "commit list \<Rightarrow> (string \<times> participant) list \<Rightarrow> string option" where
  "status_commit_scan [] ps = None"
| "status_commit_scan (commit # rest) ps =
     (let dev_id = c_developer_id commit
      in case map_of ps dev_id of
           Some info \<Rightarrow> if is_connected info then Some dev_id else status_commit_scan rest ps
         | None \<Rightarrow> status_commit_scan rest ps)"

fun status_first_connected :: "(string \<times> participant) list \<Rightarrow> string option" where
  "status_first_connected [] = None"
| "status_first_connected ((dev_id, info) # rest) =
     (if is_connected info then Some dev_id else status_first_connected rest)"

definition status_active_developer ::
  "commit list \<Rightarrow> (string \<times> participant) list \<Rightarrow> string option" where
  "status_active_developer cs ps =
     (let active_developer = None;
          active_developer =
            (if cs \<noteq> [] then
               (case status_commit_scan (rev cs) ps of Some d \<Rightarrow> Some d
                | None \<Rightarrow> active_developer)
             else active_developer);
          active_developer =
            (if \<not> is_set active_developer \<and> ps \<noteq> [] then
               (case status_first_connected ps of Some d \<Rightarrow> Some d
                | None \<Rightarrow> active_developer)
             else active_developer);
          active_developer =
            (if \<not> is_set active_developer \<and> ps \<noteq> [] then Some (fst (hd ps))
             else active_developer)
      in active_developer)"

fun participant_json :: "string \<times> participant \<Rightarrow> json" where
  "participant_json (dev_id, Structured subdomain_url connected) =
     JObj [(''developer_id'', JStr dev_id), (''subdomain_url'', JStr subdomain_url),
           (''connected'', JBool connected)]"
| "participant_json (dev_id, Legacy info) =
     JObj [(''developer_id'', JStr dev_id), (''subdomain_url'', JStr info),
           (''connected'', JBool True)]"

definition opt_str :: "string option \<Rightarrow> json" where
  "opt_str a = (case a of None \<Rightarrow> JNull | Some s \<Rightarrow> JStr s)"

definition get_room_status :: "request \<Rightarrow> rooms \<Rightarrow> reply" where
  "get_room_status req rooms =
     (case (case map_of (args req) ''room'' of
              None \<Rightarrow> Inl (Reply 400 (JObj [(''error'', JStr ''Missing room parameter'')]))
            | Some room_code \<Rightarrow>
                if room_code \<noteq> [] then checked (validate_room_code (JStr room_code))
                else Inl (Reply 400 (JObj [(''error'', JStr ''Missing room parameter'')])))
      of
        Inl r \<Rightarrow> r
      | Inr room_code \<Rightarrow>
         (case map_of rooms room_code of
            None \<Rightarrow> Reply 404 (JObj [(''error'', JStr ''Room not found'')])
          | Some room \<Rightarrow>
              let active_developer = status_active_developer (commits room) (participants room);
                  latest_commit_hash =
                    (if commits room \<noteq> [] then Some (c_commit_hash (last (commits room)))
                     else None);
                  participants_list = map participant_json (participants room)
              in Reply 200 (JObj [(''room_code'', JStr room_code),
                                  (''active_developer'', opt_str active_developer),
                                  (''latest_commit'', opt_str latest_commit_hash),
                                  (''participants'', JList participants_list)])))"

definition commit_json :: "commit \<Rightarrow> json" where
  "commit_json c =
     JObj [(''commit_hash'', JStr (c_commit_hash c)), (''branch'', JStr (c_branch c)),
           (''commit_message'', JStr (c_commit_message c)),
           (''developer_id'', JStr (c_developer_id c)), (''timestamp'', JNum (c_timestamp c))]"

definition get_room_commits :: "string \<Rightarrow> rooms \<Rightarrow> reply" where
  "get_room_commits path_room_code rooms =
     (case checked (validate_room_code (JStr path_room_code)) of
        Inl r \<Rightarrow> r
      | Inr room_code \<Rightarrow>
         (case map_of rooms room_code of
            None \<Rightarrow> Reply 404 (JObj [(''error'', JStr ''Room not found'')])
          | Some room \<Rightarrow>
              Reply 200 (JObj [(''room_code'', JStr room_code),
                               (''commits'', JList (map commit_json (commits room)))])))"

subsection \<open>Admin endpoints and health\<close>

definition room_summary :: "string \<times> room \<Rightarrow> json" where
  "room_summary entry =
     (case entry of (room_code, room_data) \<Rightarrow>
        JObj [(''room_code'', JStr room_code),
              (''participants'', JList (map (\<lambda>(d, info). JStr d) (participants room_data))),
              (''commit_count'', JNum (int (length (commits room_data)))),
              (''active_developer'',
                 (if commits room_data \<noteq> []
                  then JStr (c_developer_id (last (commits room_data))) else JNull))])"

definition list_all_rooms :: "string \<Rightarrow> request \<Rightarrow> rooms \<Rightarrow> reply" where
  "list_all_rooms ADMIN_API_KEY req rooms =
     (case require_admin_auth ADMIN_API_KEY req of
        Some r \<Rightarrow> r
      | None \<Rightarrow> Reply 200 (JObj [(''rooms'', JList (map room_summary rooms))]))"

definition delete_room ::
  "string \<Rightarrow> request \<Rightarrow> string \<Rightarrow> rooms \<Rightarrow> reply \<times> notification list \<times> rooms" where
  "delete_room ADMIN_API_KEY req path_room_code rooms =
     (case require_admin_auth ADMIN_API_KEY req of
        Some r \<Rightarrow> (r, [], rooms)
      | None \<Rightarrow>
         (case checked (validate_room_code (JStr path_room_code)) of
            Inl r \<Rightarrow> (r, [], rooms)
          | Inr room_code \<Rightarrow>
              if map_of rooms room_code = None then
                (Reply 404 (JObj [(''error'', JStr ''Room not found'')]), [], rooms)
              else
                (Reply 200 (JObj [(''status'', JStr ''success''),
                   (''message'',
                    JStr (''Room '' @ [CHR 0x27] @ room_code @ [CHR 0x27]
                          @ '' deleted successfully''))]),
                 [RoomUpdate room_code],
                 AList.delete room_code rooms)))"

definition health_check :: "rooms \<Rightarrow> reply" where
  "health_check rooms =
     Reply 200 (JObj [(''status'', JStr ''healthy''),
                      (''rooms_count'', JNum (int (length rooms)))])"

subsection \<open>The service as a transition system\<close>

datatype call =
    CreateRoom request
  | JoinRoom request
  | LeaveRoom request
  | ReportCommit int request
  | GetActiveUrl request
  | GetRoomStatus request
  | GetRoomCommits string
  | ListAllRooms request
  | DeleteRoom request string
  | HealthCheck

fun backend_step ::
  "string \<Rightarrow> (string \<Rightarrow> string option) \<Rightarrow> call \<Rightarrow> rooms
     \<Rightarrow> reply \<times> notification list \<times> rooms" where
  "backend_step key netloc (CreateRoom req) rooms = create_room req rooms"
| "backend_step key netloc (JoinRoom req) rooms = join_room req rooms"
| "backend_step key netloc (LeaveRoom req) rooms = leave_room req rooms"
| "backend_step key netloc (ReportCommit now req) rooms = report_commit now req rooms"
| "backend_step key netloc (GetActiveUrl req) rooms = (get_active_url netloc req rooms, [], rooms)"
| "backend_step key netloc (GetRoomStatus req) rooms = (get_room_status req rooms, [], rooms)"
| "backend_step key netloc (GetRoomCommits code) rooms = (get_room_commits code rooms, [], rooms)"
| "backend_step key netloc (ListAllRooms req) rooms = (list_all_rooms key req rooms, [], rooms)"
| "backend_step key netloc (DeleteRoom req code) rooms = delete_room key req code rooms"
| "backend_step key netloc HealthCheck rooms = (health_check rooms, [], rooms)"

inductive reachable :: "rooms \<Rightarrow> bool" where
  start: "reachable []"
| step: "reachable rooms \<Longrightarrow> backend_step key netloc c rooms = (r, ns, rooms') \<Longrightarrow> reachable rooms'"

definition error_status :: "nat \<Rightarrow> bool" where
  "error_status n = (n \<in> set [400, 401, 403, 404, 409])"

definition mutating :: "call \<Rightarrow> bool" where
  \<comment> \<open>rooms/create, rooms/join, rooms/leave, report-commit and the admin room delete\<close>
  "mutating c =
     (case c of CreateRoom _ \<Rightarrow> True | JoinRoom _ \<Rightarrow> True | LeaveRoom _ \<Rightarrow> True
      | ReportCommit _ _ \<Rightarrow> True | DeleteRoom _ _ \<Rightarrow> True | _ \<Rightarrow> False)"

subsection \<open>The resolution of the active developer, as specified\<close>

definition connected_participant :: "(string \<times> participant) list \<Rightarrow> string \<Rightarrow> bool" where
  \<comment> \<open>the name is a participant of the room and counts as connected\<close>
  "connected_participant ps d =
     (case map_of ps d of Some info \<Rightarrow> is_connected info | None \<Rightarrow> False)"

definition spec_active_developer ::
  "commit list \<Rightarrow> (string \<times> participant) list \<Rightarrow> string option" where
  \<comment> \<open>newest commit of a connected participant; else the first connected participant;
      else the first participant; nobody in a room without participants\<close>
  "spec_active_developer cs ps =
     (if ps = [] then None
      else
        (case find (\<lambda>c. connected_participant ps (c_developer_id c)) (rev cs) of
           Some c \<Rightarrow> Some (c_developer_id c)
         | None \<Rightarrow>
            (case find (\<lambda>(d, info). is_connected info) ps of
               Some (d, info) \<Rightarrow> Some d
             | None \<Rightarrow> Some (fst (hd ps)))))"

section \<open>proxy/app.py\<close>

subsection \<open>The Host override of the HTTP mirror\<close>

fun split_at_first :: "string \<Rightarrow> string \<Rightarrow> (string \<times> string) option" where
  \<comment> \<open>the text before and after the first occurrence of a non-empty separator\<close>
  "split_at_first sep [] = None"
| "split_at_first sep (c # cs) =
     (if startswith (c # cs) sep then Some ([], drop (length sep) (c # cs))
      else map_option (\<lambda>(a, b). (c # a, b)) (split_at_first sep cs))"

definition py_split1 :: "string \<Rightarrow> string \<Rightarrow> string list" where
  \<comment> \<open>\<open>s.split(sep, 1)\<close>\<close>
  "py_split1 sep s = (case split_at_first sep s of None \<Rightarrow> [s] | Some (a, b) \<Rightarrow> [a, b])"

definition mirror_host_override :: "string \<Rightarrow> (string \<times> string option) option" where
  \<comment> \<open>what \<open>mirror\<close> makes of a non-empty \<open>active_url\<close>: the new \<open>active_url\<close> and
      \<open>custom_host_header\<close>; \<open>None\<close> is the \<open>ValueError\<close> of a failed unpacking\<close>
  "mirror_host_override active_url =
     (if contains ''|Host:'' active_url then
        (case py_split1 ''|Host:'' active_url of
           [base_url, host_part] \<Rightarrow> Some (base_url, Some host_part)
         | _ \<Rightarrow> None)
      else Some (active_url, None))"

definition upstream_host :: "(string \<times> string) list \<Rightarrow> string option \<Rightarrow> (string \<times> string) list" where
  \<comment> \<open>\<open>if custom_host_header: upstream_headers["host"] = custom_host_header\<close>\<close>
  "upstream_host upstream_headers custom_host_header =
     (case custom_host_header of
        Some h \<Rightarrow> if h \<noteq> [] then AList.update ''host'' h upstream_headers else upstream_headers
      | None \<Rightarrow> upstream_headers)"

subsection \<open>The notification hub\<close>

text \<open>
  Connections are numbered. \<open>send_json ws msg\<close> tells whether the send to \<open>ws\<close> returns
  (\<open>True\<close>) or raises.
\<close>

record hub =
  active_developer_cache :: "(string \<times> string) list"
  notification_clients :: "(string \<times> nat list) list"

definition commit_message_for :: "string \<Rightarrow> string \<Rightarrow> json" where
  "commit_message_for room_code active_developer =
     JObj [(''type'', JStr ''commit''), (''room'', JStr room_code),
           (''active_developer'', JStr active_developer)]"

definition notify_room_clients ::
  "(nat \<Rightarrow> json \<Rightarrow> bool) \<Rightarrow> string \<Rightarrow> string \<Rightarrow> hub \<Rightarrow> (nat \<times> json) list \<times> hub" where
  \<comment> \<open>returns the sends attempted, in order, and the hub afterwards\<close>
  "notify_room_clients send_json room_code active_developer h =
     (case map_of (notification_clients h) room_code of
        None \<Rightarrow> ([], h)
      | Some clients \<Rightarrow>
          let cache = AList.update room_code active_developer (active_developer_cache h);
              msg = commit_message_for room_code active_developer;
              disconnected = filter (\<lambda>ws. \<not> send_json ws msg) clients;
              remaining = fold remove1 disconnected clients
          in (map (\<lambda>ws. (ws, msg)) clients,
              h\<lparr>active_developer_cache := cache,
                notification_clients :=
                  AList.update room_code remaining (notification_clients h)\<rparr>))"

section \<open>proxy/frp_manager.py\<close>

datatype redirect = DEVNULL | INHERIT

record popen_call =
  cmd :: "string list"
  stdout :: redirect
  stderr :: redirect

text \<open>
  The operating system as the manager sees it: \<open>shutil.which\<close> finds the name,
  \<open>os.path.isfile\<close> holds, \<open>poll()\<close> of a process handle is \<open>None\<close> (it is alive), and
  \<open>subprocess.Popen\<close> returns a handle or raises an \<open>OSError\<close> with the given text.
\<close>

record host_os =
  which_finds :: "string \<Rightarrow> bool"
  isfile :: "string \<Rightarrow> bool"
  poll_is_none :: "nat \<Rightarrow> bool"
  popen :: "popen_call \<Rightarrow> string + nat"

record FrpsLaunchResult =
  started :: bool
  reason :: "string option"

record FrpsManager =
  binary_path :: "string option"
  config_path :: "string option"
  process :: "nat option"

definition is_configured :: "host_os \<Rightarrow> FrpsManager \<Rightarrow> bool" where
  "is_configured os m =
     (case binary_path m of
        None \<Rightarrow> False
      | Some b \<Rightarrow>
          if b = [] then False
          else if \<not> which_finds os b \<and> \<not> isfile os b then False
          else True)"

definition frps_start ::
  "host_os \<Rightarrow> FrpsManager \<Rightarrow> FrpsLaunchResult \<times> popen_call list \<times> FrpsManager" where
  \<comment> \<open>\<open>FrpsManager.start\<close>: the result, the \<open>Popen\<close> calls made, the manager afterwards\<close>
  "frps_start os m =
     (if (case process m of Some p \<Rightarrow> poll_is_none os p | None \<Rightarrow> False) then
        (\<lparr>started = True, reason = None\<rparr>, [], m)
      else if \<not> is_configured os m then
        (\<lparr>started = False, reason = Some ''frps binary not configured''\<rparr>, [], m)
      else
        let c = \<lparr>cmd = (case binary_path m of Some b \<Rightarrow> [b] | None \<Rightarrow> [])
                       @ (case config_path m of
                            Some p \<Rightarrow> if p \<noteq> [] then [''-c'', p] else []
                          | None \<Rightarrow> []),
                 stdout = DEVNULL, stderr = DEVNULL\<rparr>
        in case popen os c of
             Inl exc \<Rightarrow> (\<lparr>started = False, reason = Some exc\<rparr>, [c], m)
           | Inr p \<Rightarrow> (\<lparr>started = True, reason = None\<rparr>, [c], m\<lparr>process := Some p\<rparr>))"

section \<open>The network location of a URL\<close>

text \<open>
  \<open>urllib.parse.urlparse(url).netloc\<close> belongs to Python's standard library, and
  \<open>get_active_url\<close> above takes it as a parameter. The function below follows the
  library's splitting and is used to run the examples only: leading control characters
  and spaces are dropped, then every TAB, CR and LF is removed; a leading scheme (a
  letter, then letters, digits, \<open>+\<close>, \<open>-\<close>, \<open>.\<close>, up to a colon) is cut off; if \<open>//\<close>
  follows, the network location runs up to the next \<open>/\<close>, \<open>?\<close> or \<open>#\<close>; a bracket without
  its partner raises. The library's further checks of a bracketed host and of
  characters beyond ASCII are not part of it.
\<close>

definition url_cleaned :: "string \<Rightarrow> string" where
  "url_cleaned url =
     filter (\<lambda>c. c \<notin> set [CHR 0x09, CHR 0x0A, CHR 0x0D])
       (dropWhile (\<lambda>c. (of_char c :: nat) \<le> 32) url)"

definition scheme_char :: "char \<Rightarrow> bool" where
  "scheme_char c = (ci_alpha c \<or> digit c \<or> c \<in> set ''+-.'')"

definition after_scheme :: "string \<Rightarrow> string" where
  "after_scheme url =
     (let pre = takeWhile (\<lambda>c. c \<noteq> CHR '':'') url
      in if length pre < length url \<and> pre \<noteq> [] \<and> ci_alpha (hd pre) \<and> list_all scheme_char pre
         then drop (Suc (length pre)) url else url)"

definition urlparse_netloc :: "string \<Rightarrow> string option" where
  "urlparse_netloc url =
     (let rest = after_scheme (url_cleaned url)
      in if take 2 rest = ''//'' then
           (let netloc = takeWhile (\<lambda>c. c \<notin> set ''/?#'') (drop 2 rest)
            in if (CHR ''['' \<in> set netloc) \<noteq> (CHR '']'' \<in> set netloc) then None
               else Some netloc)
         else Some [])"

section \<open>The sanitised commit message, as specified\<close>

definition spec_sanitize :: "string \<Rightarrow> string" where
  \<comment> \<open>tags stripped, then newlines turned into spaces and carriage returns removed,
      then trimmed\<close>
  "spec_sanitize m =
     py_strip (filter (\<lambda>c. c \<noteq> CR) (map (\<lambda>c. if c = LF then CHR '' '' else c) (strip_tags m)))"

definition long_tagged_message :: string where
  \<comment> \<open>a tag of 203 characters followed by \<open>ok\<close>\<close>
  "long_tagged_message = ''<'' @ replicate 201 (CHR ''a'') @ ''>ok''"

section \<open>Well-formed room tables\<close>

definition room_ok :: "string \<times> room \<Rightarrow> bool" where
  \<comment> \<open>the code is a valid room code, somebody is in the room, and every participant has
      a non-empty name and a non-empty tunnel URL\<close>
  "room_ok entry =
     (case entry of (code, room) \<Rightarrow>
        validate_room_code (JStr code) = Inr code \<and> participants room \<noteq> []
        \<and> list_all (\<lambda>(d, info). d \<noteq> [] \<and> subdomain_url_of info \<noteq> []) (participants room))"

definition rooms_ok :: "rooms \<Rightarrow> bool" where
  "rooms_ok rooms = list_all room_ok rooms"

definition room_query :: "string \<Rightarrow> request" where
  \<comment> \<open>a GET request with \<open>?room=code\<close>\<close>
  "room_query code =
     \<lparr>is_json = False, get_json = None, authorization = None, args = [(''room'', code)]\<rparr>"

definition json_post :: "(string \<times> json) list \<Rightarrow> request" where
  \<comment> \<open>a POST request with a JSON object as its body\<close>
  "json_post kvs =
     \<lparr>is_json = True, get_json = Some (JObj kvs), authorization = None, args = []\<rparr>"

section \<open>Shapes of replies\<close>

definition early_reply :: "reply \<Rightarrow> bool" where
  \<comment> \<open>what leaves a \<open>try\<close> block early: an escaping exception, or the 400 reply of the
      \<open>except ValidationError\<close> clause\<close>
  "early_reply r = ((\<exists>e. r = Raised e) \<or> (\<exists>e. r = validation_failed e))"

definition escaped :: "reply \<Rightarrow> bool" where
  \<comment> \<open>an exception left the view function; the framework answers with its own page\<close>
  "escaped r = ((\<exists>e. r = Raised e) \<or> r = Aborted 400)"

definition bare_errors :: "string list" where
  \<comment> \<open>the error texts the view functions send without a \<open>message\<close>\<close>
  "bare_errors =
     [''Room not found'', ''Developer not in room'',
      ''Room with this project name already exists'', ''Missing room parameter'']"

definition error_with_message :: "reply \<Rightarrow> bool" where
  "error_with_message r =
     (\<exists>n e m. r = Reply n (JObj [(''error'', JStr e), (''message'', JStr m)])
        \<and> n \<in> set [400, 401, 403] \<and> e \<notin> set bare_errors)"

definition error_without_message :: "reply \<Rightarrow> bool" where
  "error_without_message r =
     (\<exists>n e. r = Reply n (JObj [(''error'', JStr e)])
        \<and> n \<in> set [400, 403, 404, 409] \<and> e \<in> set bare_errors)"

definition success :: "reply \<Rightarrow> bool" where
  "success r = (status r = 200 \<or> status r = 201)"

section \<open>Runs of the service and example requests\<close>

fun run :: "string \<Rightarrow> (string \<Rightarrow> string option) \<Rightarrow> call list \<Rightarrow> rooms \<Rightarrow> rooms" where
  \<comment> \<open>the room table after a sequence of calls\<close>
  "run key netloc [] rooms = rooms"
| "run key netloc (c # cs) rooms = run key netloc cs (snd (snd (backend_step key netloc c rooms)))"

definition create_call :: "string \<Rightarrow> string \<Rightarrow> string \<Rightarrow> call" where
  "create_call project developer url =
     CreateRoom (json_post [(''project_name'', JStr project), (''developer_id'', JStr developer),
                            (''subdomain_url'', JStr url)])"

definition join_call :: "string \<Rightarrow> string \<Rightarrow> string \<Rightarrow> call" where
  "join_call code developer url =
     JoinRoom (json_post [(''room_code'', JStr code), (''developer_id'', JStr developer),
                          (''subdomain_url'', JStr url)])"

definition leave_call :: "string \<Rightarrow> string \<Rightarrow> call" where
  "leave_call code developer =
     LeaveRoom (json_post [(''room_code'', JStr code), (''developer_id'', JStr developer)])"

definition commit_call :: "string \<Rightarrow> string \<Rightarrow> call" where
  "commit_call code developer =
     ReportCommit 0 (json_post [(''room_code'', JStr code), (''developer_id'', JStr developer),
                                (''commit_hash'', JStr ''abc1234''), (''branch'', JStr ''main''),
                                (''commit_message'', JStr ''work'')])"

definition alice_url :: string where
  "alice_url = ''http://dev-alice-demo.m-act.live''"

definition bob_url :: string where
  "bob_url = ''http://dev-bob.io''"

definition demo_calls :: "call list" where
  \<comment> \<open>alice creates the room, bob joins, alice commits, bob commits, bob leaves\<close>
  "demo_calls =
     [create_call ''demo'' ''alice'' alice_url, join_call ''demo'' ''bob'' bob_url,
      commit_call ''demo'' ''alice'', commit_call ''demo'' ''bob'', leave_call ''demo'' ''bob'']"

definition demo_commit :: "string \<Rightarrow> commit" where
  "demo_commit developer =
     \<lparr>c_commit_hash = ''abc1234'', c_branch = ''main'', c_commit_message = ''work'',
      c_developer_id = developer, c_timestamp = 0\<rparr>"

definition demo_room :: room where
  "demo_room =
     \<lparr>participants = [(''alice'', Legacy alice_url), (''bob'', Structured bob_url False)],
      commits = [demo_commit ''alice'', demo_commit ''bob'']\<rparr>"

definition requested_room :: "request \<Rightarrow> (error + string) option" where
  \<comment> \<open>the \<open>room\<close> query parameter after validation; \<open>None\<close> when it is missing or empty\<close>
  "requested_room req =
     (case map_of (args req) ''room'' of
        None \<Rightarrow> None
      | Some rc \<Rightarrow> if rc \<noteq> [] then Some (validate_room_code (JStr rc)) else None)"

section \<open>Example environments\<close>

definition no_frps_os :: host_os where
  \<comment> \<open>a host without the binary, on which every launch fails\<close>
  "no_frps_os =
     \<lparr>which_finds = (\<lambda>b. False), isfile = (\<lambda>b. False), poll_is_none = (\<lambda>p. False),
      popen = (\<lambda>c. Inl ''[Errno 2] No such file or directory'')\<rparr>"

definition frps_os :: host_os where
  \<comment> \<open>a host with \<open>/usr/bin/frps\<close>, where a launch gives process 7 and processes stay alive\<close>
  "frps_os =
     \<lparr>which_finds = (\<lambda>b. False), isfile = (\<lambda>b. b = ''/usr/bin/frps''),
      poll_is_none = (\<lambda>p. True), popen = (\<lambda>c. Inr 7)\<rparr>"

definition unconfigured_manager :: FrpsManager where
  "unconfigured_manager = \<lparr>binary_path = None, config_path = None, process = None\<rparr>"

definition frps_manager :: FrpsManager where
  "frps_manager =
     \<lparr>binary_path = Some ''/usr/bin/frps'', config_path = Some ''frps.ini'', process = None\<rparr>"

definition process_alive :: "host_os \<Rightarrow> FrpsManager \<Rightarrow> bool" where
  \<comment> \<open>\<open>self._process and self._process.poll() is None\<close>\<close>
  "process_alive os m = (case process m of Some p \<Rightarrow> poll_is_none os p | None \<Rightarrow> False)"

definition empty_hub :: hub where
  "empty_hub = \<lparr>active_developer_cache = [], notification_clients = []\<rparr>"

definition demo_hub :: hub where
  \<comment> \<open>connections 1, 2 and 3 watch the room \<open>demo\<close>\<close>
  "demo_hub = \<lparr>active_developer_cache = [], notification_clients = [(''demo'', [1, 2, 3])]\<rparr>"

definition send_always :: "nat \<Rightarrow> json \<Rightarrow> bool" where
  "send_always ws msg = True"

definition send_except_2 :: "nat \<Rightarrow> json \<Rightarrow> bool" where
  \<comment> \<open>the send to connection 2 raises\<close>
  "send_except_2 ws msg = (ws \<noteq> 2)"

definition demo_created :: rooms where
  \<comment> \<open>the table after alice has created the room \<open>demo\<close>\<close>
  "demo_created = [(''demo'', \<lparr>participants = [(''alice'', Legacy alice_url)], commits = []\<rparr>)]"

definition demo_joined :: rooms where
  \<comment> \<open>and after bob has joined it\<close>
  "demo_joined =
     [(''demo'', \<lparr>participants = [(''alice'', Legacy alice_url),
                                    (''bob'', Structured bob_url True)], commits = []\<rparr>)]"

definition create_demo :: request where
  "create_demo =
     json_post [(''project_name'', JStr ''demo''), (''developer_id'', JStr ''alice''),
                (''subdomain_url'', JStr alice_url)]"

definition join_demo :: request where
  "join_demo =
     json_post [(''room_code'', JStr ''demo''), (''developer_id'', JStr ''bob''),
                (''subdomain_url'', JStr bob_url)]"

definition body_field :: "request \<Rightarrow> string \<Rightarrow> json option" where
  \<comment> \<open>the value under a key of a request body that is a JSON object\<close>
  "body_field req k = (case get_json req of Some (JObj kvs) \<Rightarrow> map_of kvs k | _ \<Rightarrow> None)"

definition netloc_raises :: "string \<Rightarrow> string option" where
  \<comment> \<open>a URL parser that raises on every input\<close>
  "netloc_raises url = None"

section \<open>Facts about the string functions\<close>

lemma dropWhile_none: "\<forall>x\<in>set s. \<not> P x \<Longrightarrow> dropWhile P s = s"
  by (cases s) auto

lemma py_strip_id: "\<forall>x\<in>set s. \<not> is_space x \<Longrightarrow> py_strip s = s"
  by (simp add: py_strip_def dropWhile_none)

lemma set_strip_subset: "set (rev (dropWhile P (rev (dropWhile Q s)))) \<subseteq> set s"
proof -
  have "set (dropWhile P (rev (dropWhile Q s))) \<subseteq> set (rev (dropWhile Q s))"
    by (meson set_dropWhileD subsetI)
  also have "\<dots> \<subseteq> set s"
    using set_dropWhileD by fastforce
  finally show ?thesis by simp
qed

lemma set_py_strip: "set (py_strip s) \<subseteq> set s"
  unfolding py_strip_def by (rule set_strip_subset)

lemma set_py_strip_char: "set (py_strip_char c s) \<subseteq> set s"
  unfolding py_strip_char_def by (rule set_strip_subset)

lemma set_collapse_hyphens: "set (collapse_hyphens s) \<subseteq> set s"
  by (induction s rule: collapse_hyphens.induct) auto

lemma strip_ends:
  assumes "rev (dropWhile P (rev (dropWhile P s))) \<noteq> []"
  shows "\<not> P (hd (rev (dropWhile P (rev (dropWhile P s)))))"
    and "\<not> P (last (rev (dropWhile P (rev (dropWhile P s)))))"
proof -
  let ?t = "dropWhile P s"
  let ?u = "dropWhile P (rev ?t)"
  from assms have u: "?u \<noteq> []" by simp
  then have t: "?t \<noteq> []" by (auto simp del: dropWhile_eq_Nil_conv)
  have "rev ?t = takeWhile P (rev ?t) @ ?u" by simp
  then have "last (rev ?t) = last ?u" using u by (metis last_appendR)
  then have "last ?u = hd ?t" using t by (simp add: last_rev)
  moreover have "\<not> P (hd ?t)" using t by (rule hd_dropWhile)
  ultimately show "\<not> P (hd (rev ?u))" using u by (simp add: hd_rev)
  have "\<not> P (hd ?u)" using u by (rule hd_dropWhile)
  then show "\<not> P (last (rev ?u))" using u by (simp add: last_rev)
qed

lemma room_code_char_not_space: "room_code_char c \<Longrightarrow> \<not> is_space c"
  by (auto simp: room_code_char_def lower_alpha_def digit_def is_space_def)

lemma room_code_char_not_LF: "room_code_char c \<Longrightarrow> c \<noteq> LF"
  by (auto simp: room_code_char_def lower_alpha_def digit_def LF_def)

lemma chomp_newline_id: "LF \<notin> set s \<Longrightarrow> chomp_newline s = s"
proof (cases "s \<noteq> [] \<and> last s = LF")
  case True
  then have "LF \<in> set s" using last_in_set [of s] by auto
  moreover assume "LF \<notin> set s"
  ultimately show ?thesis by simp
next
  case False
  then show ?thesis by (auto simp: chomp_newline_def)
qed

lemma startswith_single: "startswith s [c] \<longleftrightarrow> s \<noteq> [] \<and> hd s = c"
  by (cases s) (auto simp: startswith_def)

lemma endswith_single: "endswith s [c] \<longleftrightarrow> s \<noteq> [] \<and> last s = c"
proof (cases s rule: rev_cases)
  case Nil
  then show ?thesis by (simp add: endswith_def)
next
  case (snoc ys y)
  then show ?thesis by (auto simp: endswith_def)
qed

section \<open>Room codes derived from project names\<close>

lemma validate_room_code_fixed:
  assumes "rc \<noteq> []" "length rc \<le> 50" "\<forall>c\<in>set rc. room_code_char c"
    "hd rc \<noteq> CHR ''-''" "last rc \<noteq> CHR ''-''"
  shows "validate_room_code (JStr rc) = Inr rc"
proof -
  have "LF \<notin> set rc" using assms(3) room_code_char_not_LF by blast
  then have "chomp_newline rc = rc" by (rule chomp_newline_id)
  then have pat: "ROOM_CODE_PATTERN rc"
    using assms(1,3) by (simp add: ROOM_CODE_PATTERN_def list_all_iff)
  have strip: "py_strip rc = rc"
    using assms(3) room_code_char_not_space by (intro py_strip_id) blast
  show ?thesis
    using assms(1,2,4,5) pat strip
    by (simp add: MAX_ROOM_CODE_LENGTH_def startswith_single endswith_single)
qed

lemma validate_project_name_Inr:
  assumes "validate_project_name p = Inr rc"
  shows "rc \<noteq> [] \<and> length rc \<le> 50 \<and> (\<forall>c\<in>set rc. room_code_char c)
          \<and> hd rc \<noteq> CHR ''-'' \<and> last rc \<noteq> CHR ''-''"
proof (cases p)
  case (JStr s)
  let ?f = "collapse_hyphens (filter room_code_char
      (replace_char (CHR ''_'') (CHR ''-'') (replace_char (CHR '' '') (CHR ''-'') (py_lower s))))"
  from assms JStr have rc: "rc = py_strip_char (CHR ''-'') ?f" and ne: "rc \<noteq> []" and le: "length rc \<le> 50"
    by (auto simp: Let_def MAX_ROOM_CODE_LENGTH_def split: if_splits)
  have "set rc \<subseteq> set ?f" unfolding rc by (rule set_py_strip_char)
  also have "\<dots> \<subseteq> set (filter room_code_char
      (replace_char (CHR ''_'') (CHR ''-'') (replace_char (CHR '' '') (CHR ''-'') (py_lower s))))"
    by (rule set_collapse_hyphens)
  finally have cls: "\<forall>c\<in>set rc. room_code_char c" by auto
  have "hd rc \<noteq> CHR ''-''" "last rc \<noteq> CHR ''-''"
    using strip_ends [of "\<lambda>x. x = CHR ''-''" ?f] ne unfolding rc py_strip_char_def by auto
  with ne le cls show ?thesis by simp
qed (use assms in simp_all)

text \<open>
  C9. Every room code that \<open>validate_project_name\<close> derives is non-empty, at most 50
  characters long, made of \<open>[a-z0-9-]\<close> only, neither starts nor ends with a hyphen,
  and \<open>validate_room_code\<close> accepts it and returns it unchanged.
\<close>

theorem derived_room_code_is_valid:
  assumes "validate_project_name p = Inr rc"
  shows "validate_room_code (JStr rc) = Inr rc \<and> rc \<noteq> [] \<and> length rc \<le> 50
           \<and> list_all room_code_char rc \<and> \<not> startswith rc ''-'' \<and> \<not> endswith rc ''-''"
proof -
  note facts = validate_project_name_Inr [OF assms]
  from facts have "validate_room_code (JStr rc) = Inr rc"
    by (intro validate_room_code_fixed) simp_all
  with facts show ?thesis
    by (simp add: list_all_iff startswith_single endswith_single)
qed

theorem derived_room_code_is_valid_witness:
  "validate_project_name (JStr ''My Cool_Project!!'') = Inr ''my-cool-project''
     \<and> validate_room_code (JStr ''my-cool-project'') = Inr ''my-cool-project''"
proof -
  have h: "validate_project_name (JStr ''My Cool_Project!!'') = Inr ''my-cool-project''"
    by code_simp
  from derived_room_code_is_valid [OF h] h show ?thesis by simp
qed

section \<open>Commit messages\<close>

lemma LF_not_CR: "LF \<noteq> CR" "LF \<noteq> CHR '' ''"
  by (simp_all add: LF_def CR_def)

lemma spec_sanitize_clean: "LF \<notin> set (spec_sanitize m) \<and> CR \<notin> set (spec_sanitize m)"
proof -
  let ?x = "filter (\<lambda>c. c \<noteq> CR) (map (\<lambda>c. if c = LF then CHR '' '' else c) (strip_tags m))"
  have "LF \<notin> set ?x" "CR \<notin> set ?x" using LF_not_CR by auto
  moreover have "set (spec_sanitize m) \<subseteq> set ?x"
    unfolding spec_sanitize_def by (rule set_py_strip)
  ultimately show ?thesis by blast
qed

text \<open>
  C3 (amended). For a non-empty message the 200-character limit is applied to the
  sanitised text (tags stripped, newlines turned into spaces, carriage returns
  removed, trimmed) and to nothing else: the message is accepted exactly when that
  text has at most 200 characters, and the text is returned; it contains neither
  newline nor carriage return. The message \<open><b>hi</b>\n there\<close> becomes \<open>hi  there\<close>,
  with two spaces: the newline's and the one that was there.
\<close>

theorem commit_message_limit_on_sanitized:
  "(message \<noteq> [] \<longrightarrow>
      validate_commit_message (JStr message) =
        (if length (spec_sanitize message) \<le> 200 then Inr (spec_sanitize message)
         else Inl (ValidationError ''commit_message too long (max 200 chars)''))
      \<and> LF \<notin> set (spec_sanitize message) \<and> CR \<notin> set (spec_sanitize message))
   \<and> validate_commit_message (JStr (''<b>hi</b>'' @ [LF] @ '' there'')) = Inr ''hi  there''"
proof -
  have "validate_commit_message (JStr (''<b>hi</b>'' @ [LF] @ '' there'')) = Inr ''hi  there''"
    by code_simp
  moreover have "message \<noteq> [] \<Longrightarrow>
      validate_commit_message (JStr message) =
        (if length (spec_sanitize message) \<le> 200 then Inr (spec_sanitize message)
         else Inl (ValidationError ''commit_message too long (max 200 chars)''))"
    by (simp add: spec_sanitize_def replace_char_def remove_char_def Let_def
        MAX_COMMIT_MESSAGE_LENGTH_def)
  ultimately show ?thesis using spec_sanitize_clean [of message] by blast
qed

theorem commit_message_limit_on_sanitized_witness:
  "200 < length long_tagged_message
     \<and> validate_commit_message (JStr long_tagged_message) = Inr ''ok''"
proof -
  have ne: "long_tagged_message \<noteq> []" by (simp add: long_tagged_message_def)
  have len: "200 < length long_tagged_message" by (simp add: long_tagged_message_def)
  have san: "spec_sanitize long_tagged_message = ''ok''" by code_simp
  from commit_message_limit_on_sanitized [of long_tagged_message] ne len san
  show ?thesis by simp
qed

theorem commit_message_example_counterexample:
  "validate_commit_message (JStr (''<b>hi</b>'' @ [LF] @ '' there'')) \<noteq> Inr ''hi there''"
  by code_simp

section \<open>Validated names and URLs are not empty\<close>

lemma rstrip_keeps_hd:
  assumes "s \<noteq> []" "\<not> P (hd s)"
  shows "rev (dropWhile P (rev s)) \<noteq> [] \<and> hd (rev (dropWhile P (rev s))) = hd s"
proof -
  let ?u = "dropWhile P (rev s)"
  have "hd s \<in> set (rev s)" using assms(1) by simp
  with assms(2) have u: "?u \<noteq> []" by auto
  have "rev s = takeWhile P (rev s) @ ?u" by simp
  then have "last (rev s) = last ?u" using u by (metis last_appendR)
  then have "last ?u = hd s" using assms(1) by (simp add: last_rev)
  with u show ?thesis by (simp add: hd_rev)
qed

lemma py_strip_keeps_hd:
  assumes "s \<noteq> []" "\<not> is_space (hd s)"
  shows "py_strip s \<noteq> [] \<and> hd (py_strip s) = hd s"
proof -
  have "dropWhile is_space s = s" using assms by (cases s) auto
  then show ?thesis using rstrip_keeps_hd [of s is_space] assms by (simp add: py_strip_def)
qed

lemma hd_chomp_newline: "chomp_newline s \<noteq> [] \<Longrightarrow> s \<noteq> [] \<and> hd (chomp_newline s) = hd s"
  by (cases s) (auto simp: chomp_newline_def split: if_splits)

lemma developer_id_char_not_space: "developer_id_char c \<Longrightarrow> \<not> is_space c"
  by (auto simp: developer_id_char_def lower_alpha_def upper_alpha_def digit_def is_space_def)

lemma validate_developer_id_nonempty:
  assumes "validate_developer_id v = Inr d"
  shows "d \<noteq> []"
proof (cases v)
  case (JStr s)
  with assms have pat: "DEVELOPER_ID_PATTERN s" and d: "d = py_strip s"
    by (auto split: if_splits)
  from pat have b: "chomp_newline s \<noteq> []" and "developer_id_char (hd (chomp_newline s))"
    by (auto simp: DEVELOPER_ID_PATTERN_def Let_def list_all_iff)
  with hd_chomp_newline [OF b] have "s \<noteq> []" "\<not> is_space (hd s)"
    using developer_id_char_not_space by auto
  then show ?thesis using py_strip_keeps_hd d by simp
qed (use assms in simp_all)

lemma is_space_lower_char: "is_space c \<Longrightarrow> lower_char c = c"
  unfolding is_space_def by (auto simp: lower_char_def)

lemma slash_lower_char: "lower_char (CHR ''/'') = CHR ''/''"
  by (simp add: lower_char_def)

lemma URL_PATTERN_hd:
  assumes "URL_PATTERN s"
  shows "s \<noteq> [] \<and> lower_char (hd s) = CHR ''h''"
proof -
  let ?b = "chomp_newline s"
  from assms have "py_lower (take 7 ?b) = ''http://'' \<or> py_lower (take 8 ?b) = ''https://''"
    by (auto simp: URL_PATTERN_def Let_def ci_equal_def)
  then have "?b \<noteq> [] \<and> lower_char (hd ?b) = CHR ''h''"
    by (cases ?b) (auto simp: py_lower_def)
  then show ?thesis using hd_chomp_newline [of s] by simp
qed

lemma validate_subdomain_url_nonempty:
  assumes "validate_subdomain_url v = Inr u"
  shows "u \<noteq> []"
proof (cases v)
  case (JStr s)
  with assms have pat: "URL_PATTERN s" and u: "u = py_rstrip_char (CHR ''/'') (py_strip s)"
    by (auto split: if_splits)
  from URL_PATTERN_hd [OF pat] have s: "s \<noteq> []" and h: "lower_char (hd s) = CHR ''h''"
    by simp_all
  from h have "\<not> is_space (hd s)" using is_space_lower_char [of "hd s"]
    by (auto simp: is_space_def)
  from py_strip_keeps_hd [OF s this]
  have t: "py_strip s \<noteq> []" and ht: "hd (py_strip s) = hd s" by simp_all
  from h ht have "\<not> (hd (py_strip s) = CHR ''/'')" using slash_lower_char by auto
  from rstrip_keeps_hd [of "py_strip s" "\<lambda>x. x = CHR ''/''", OF t this]
  show ?thesis by (simp add: u py_rstrip_char_def)
qed (use assms in simp_all)

section \<open>What the view functions do to the room table\<close>

lemma and_then_Inr: "and_then m k = Inr x \<longleftrightarrow> (\<exists>y. m = Inr y \<and> k y = Inr x)"
  by (cases m) auto

lemma and_then_Inl: "and_then m k = Inl r \<longleftrightarrow> m = Inl r \<or> (\<exists>y. m = Inr y \<and> k y = Inl r)"
  by (cases m) auto

lemma checked_Inr: "checked v = Inr y \<longleftrightarrow> v = Inr y"
  by (cases v rule: checked.cases) auto

lemma checked_Inl:
  "checked v = Inl r \<longleftrightarrow> (\<exists>e. v = Inl (ValidationError e) \<and> r = validation_failed e)"
  by (cases v rule: checked.cases) auto

lemma subscript_Inl: "subscript d k = Inl r \<Longrightarrow> \<exists>e. r = Raised e"
  by (cases d) (auto split: option.splits)

lemma early_checked: "checked v = Inl r \<Longrightarrow> early_reply r"
  by (auto simp: early_reply_def checked_Inl)

lemma create_room_inputs_Inl: "create_room_inputs data = Inl r \<Longrightarrow> early_reply r"
  by (auto simp: create_room_inputs_def and_then_Inl checked_Inl early_reply_def
      dest!: subscript_Inl)

lemma join_room_inputs_Inl: "join_room_inputs data = Inl r \<Longrightarrow> early_reply r"
  by (auto simp: join_room_inputs_def and_then_Inl checked_Inl early_reply_def
      dest!: subscript_Inl)

lemma leave_room_inputs_Inl: "leave_room_inputs data = Inl r \<Longrightarrow> early_reply r"
  by (auto simp: leave_room_inputs_def and_then_Inl checked_Inl early_reply_def
      dest!: subscript_Inl)

lemma report_commit_inputs_Inl: "report_commit_inputs data = Inl r \<Longrightarrow> early_reply r"
  by (auto simp: report_commit_inputs_def and_then_Inl checked_Inl early_reply_def
      dest!: subscript_Inl)

lemma create_room_inputs_Inr:
  "create_room_inputs data = Inr (code, d, u) \<Longrightarrow>
     \<exists>vp vd vu. validate_project_name vp = Inr code \<and> validate_developer_id vd = Inr d
        \<and> validate_subdomain_url vu = Inr u"
  unfolding create_room_inputs_def and_then_Inr checked_Inr by auto

lemma join_room_inputs_Inr:
  "join_room_inputs data = Inr (code, d, u) \<Longrightarrow>
     \<exists>vd vu. validate_developer_id vd = Inr d \<and> validate_subdomain_url vu = Inr u"
  unfolding join_room_inputs_def and_then_Inr checked_Inr by auto

lemma gate_reply:
  "validate_request_json fs req = Some r \<Longrightarrow> escaped r \<or> error_with_message r"
  by (auto simp: validate_request_json_def Let_def error_with_message_def bare_errors_def
      escaped_def split: if_splits option.splits)

lemma gate_passed: "validate_request_json fs req = None \<Longrightarrow> \<exists>data. get_json req = Some data"
  by (auto simp: validate_request_json_def split: if_splits option.splits)

lemma auth_reply: "require_admin_auth key req = Some r \<Longrightarrow> error_with_message r"
  by (auto simp: require_admin_auth_def Let_def error_with_message_def bare_errors_def
      split: if_splits)

lemma early_reply_shape: "early_reply r \<Longrightarrow> escaped r \<or> error_with_message r"
  by (auto simp: early_reply_def validation_failed_def error_with_message_def bare_errors_def
      escaped_def)

lemma create_room_cases:
  assumes "create_room req rooms = (r, ns, rooms')"
  obtains
    (refused) "rooms' = rooms" "ns = []"
      "escaped r \<or> error_with_message r \<or> error_without_message r"
  | (created) code d u vp vd vu where
      "validate_project_name vp = Inr code" "validate_developer_id vd = Inr d"
      "validate_subdomain_url vu = Inr u" "map_of rooms code = None"
      "r = Reply 201 (JObj [(''room_code'', JStr code), (''public_url'', JStr (public_url code))])"
      "ns = []"
      "rooms' = AList.update code \<lparr>participants = [(d, Legacy u)], commits = []\<rparr> rooms"
proof (cases "validate_request_json [''project_name'', ''developer_id'', ''subdomain_url''] req")
  case (Some g)
  with assms have "r = g" "rooms' = rooms" "ns = []" by (simp_all add: create_room_def)
  with Some gate_reply show ?thesis by (intro refused) auto
next
  case None
  then obtain data where data: "get_json req = Some data" by (blast dest: gate_passed)
  show ?thesis
  proof (cases "create_room_inputs data")
    case (Inl e)
    with None data assms have "r = e" "rooms' = rooms" "ns = []"
      by (simp_all add: create_room_def)
    with Inl create_room_inputs_Inl early_reply_shape show ?thesis by (intro refused) auto
  next
    case (Inr t)
    obtain code d u where t: "t = (code, d, u)" by (cases t)
    show ?thesis
    proof (cases "map_of rooms code")
      case (Some x)
      with None data Inr t assms have "rooms' = rooms" "ns = []"
        "r = Reply 409 (JObj [(''error'', JStr ''Room with this project name already exists'')])"
        by (simp_all add: create_room_def)
      then show ?thesis
        by (intro refused) (auto simp: error_without_message_def bare_errors_def)
    next
      case nf: None
      from create_room_inputs_Inr Inr t obtain vp vd vu where
        "validate_project_name vp = Inr code" "validate_developer_id vd = Inr d"
        "validate_subdomain_url vu = Inr u" by blast
      moreover from None data Inr t assms nf have
        "r = Reply 201 (JObj [(''room_code'', JStr code), (''public_url'', JStr (public_url code))])"
        "ns = []"
        "rooms' = AList.update code \<lparr>participants = [(d, Legacy u)], commits = []\<rparr> rooms"
        by (simp_all add: create_room_def)
      ultimately show ?thesis using nf by (intro created)
    qed
  qed
qed

lemma join_room_cases:
  assumes "join_room req rooms = (r, ns, rooms')"
  obtains
    (refused) "rooms' = rooms" "ns = []"
      "escaped r \<or> error_with_message r \<or> error_without_message r"
  | (joined) code d u room vd vu b where
      "validate_developer_id vd = Inr d" "validate_subdomain_url vu = Inr u"
      "map_of rooms code = Some room" "r = Reply 200 b" "ns = [RoomUpdate code]"
      "rooms' = AList.update code
         (room\<lparr>participants := AList.update d (Structured u True) (participants room)\<rparr>) rooms"
proof (cases "validate_request_json [''room_code'', ''developer_id'', ''subdomain_url''] req")
  case (Some g)
  with assms have "r = g" "rooms' = rooms" "ns = []" by (simp_all add: join_room_def)
  with Some gate_reply show ?thesis by (intro refused) auto
next
  case None
  then obtain data where data: "get_json req = Some data" by (blast dest: gate_passed)
  show ?thesis
  proof (cases "join_room_inputs data")
    case (Inl e)
    with None data assms have "r = e" "rooms' = rooms" "ns = []"
      by (simp_all add: join_room_def)
    with Inl join_room_inputs_Inl early_reply_shape show ?thesis by (intro refused) auto
  next
    case (Inr t)
    obtain code d u where t: "t = (code, d, u)" by (cases t)
    show ?thesis
    proof (cases "map_of rooms code")
      case nf: None
      with None data Inr t assms have "rooms' = rooms" "ns = []"
        "r = Reply 404 (JObj [(''error'', JStr ''Room not found'')])"
        by (simp_all add: join_room_def)
      then show ?thesis
        by (intro refused) (auto simp: error_without_message_def bare_errors_def)
    next
      case (Some room)
      from join_room_inputs_Inr Inr t obtain vd vu where
        "validate_developer_id vd = Inr d" "validate_subdomain_url vu = Inr u" by blast
      moreover from None data Inr t assms Some have
        "\<exists>b. r = Reply 200 b" "ns = [RoomUpdate code]"
        "rooms' = AList.update code
           (room\<lparr>participants := AList.update d (Structured u True) (participants room)\<rparr>) rooms"
        by (auto simp: join_room_def Let_def split: if_splits)
      ultimately show ?thesis using Some by (elim exE, intro joined)
    qed
  qed
qed

lemma leave_room_cases:
  assumes "leave_room req rooms = (r, ns, rooms')"
  obtains
    (refused) "rooms' = rooms" "ns = []"
      "escaped r \<or> error_with_message r \<or> error_without_message r"
  | (left) code d room info where
      "map_of rooms code = Some room" "map_of (participants room) d = Some info"
      "r = Reply 200 (JObj [(''status'', JStr ''success'')])" "ns = [RoomUpdate code]"
      "rooms' = AList.update code
         (room\<lparr>participants :=
            AList.update d (mark_disconnected info) (participants room)\<rparr>) rooms"
proof (cases "validate_request_json [''room_code'', ''developer_id''] req")
  case (Some g)
  with assms have "r = g" "rooms' = rooms" "ns = []" by (simp_all add: leave_room_def)
  with Some gate_reply show ?thesis by (intro refused) auto
next
  case None
  then obtain data where data: "get_json req = Some data" by (blast dest: gate_passed)
  show ?thesis
  proof (cases "leave_room_inputs data")
    case (Inl e)
    with None data assms have "r = e" "rooms' = rooms" "ns = []"
      by (simp_all add: leave_room_def)
    with Inl leave_room_inputs_Inl early_reply_shape show ?thesis by (intro refused) auto
  next
    case (Inr t)
    obtain code d where t: "t = (code, d)" by (cases t)
    show ?thesis
    proof (cases "map_of rooms code")
      case nf: None
      with None data Inr t assms have "rooms' = rooms" "ns = []"
        "r = Reply 404 (JObj [(''error'', JStr ''Room not found'')])"
        by (simp_all add: leave_room_def)
      then show ?thesis
        by (intro refused) (auto simp: error_without_message_def bare_errors_def)
    next
      case (Some room)
      show ?thesis
      proof (cases "map_of (participants room) d")
        case nd: None
        with None data Inr t assms Some have "rooms' = rooms" "ns = []"
          "r = Reply 404 (JObj [(''error'', JStr ''Developer not in room'')])"
          by (simp_all add: leave_room_def)
        then show ?thesis
          by (intro refused) (auto simp: error_without_message_def bare_errors_def)
      next
        case (Some info)
        with None data Inr t assms \<open>map_of rooms code = Some room\<close> have
          "r = Reply 200 (JObj [(''status'', JStr ''success'')])" "ns = [RoomUpdate code]"
          "rooms' = AList.update code
             (room\<lparr>participants :=
                AList.update d (mark_disconnected info) (participants room)\<rparr>) rooms"
          by (simp_all add: leave_room_def)
        with Some \<open>map_of rooms code = Some room\<close> show ?thesis by (intro left)
      qed
    qed
  qed
qed

lemma report_commit_cases:
  assumes "report_commit now req rooms = (r, ns, rooms')"
  obtains
    (refused) "rooms' = rooms" "ns = []"
      "escaped r \<or> error_with_message r \<or> error_without_message r"
  | (reported) code room commit where
      "map_of rooms code = Some room"
      "map_of (participants room) (c_developer_id commit) \<noteq> None"
      "r = Reply 200 (JObj [(''status'', JStr ''success'')])"
      "rooms' = AList.update code (room\<lparr>commits := commits room @ [commit]\<rparr>) rooms"
proof (cases "validate_request_json
    [''room_code'', ''developer_id'', ''commit_hash'', ''branch'', ''commit_message''] req")
  case (Some g)
  with assms have "r = g" "rooms' = rooms" "ns = []" by (simp_all add: report_commit_def)
  with Some gate_reply show ?thesis by (intro refused) auto
next
  case None
  then obtain data where data: "get_json req = Some data" by (blast dest: gate_passed)
  show ?thesis
  proof (cases "report_commit_inputs data")
    case (Inl e)
    with None data assms have "r = e" "rooms' = rooms" "ns = []"
      by (simp_all add: report_commit_def)
    with Inl report_commit_inputs_Inl early_reply_shape show ?thesis by (intro refused) auto
  next
    case (Inr t)
    obtain code d h b m where t: "t = (code, d, h, b, m)" by (cases t)
    show ?thesis
    proof (cases "map_of rooms code")
      case nf: None
      with None data Inr t assms have "rooms' = rooms" "ns = []"
        "r = Reply 404 (JObj [(''error'', JStr ''Room not found'')])"
        by (simp_all add: report_commit_def)
      then show ?thesis
        by (intro refused) (auto simp: error_without_message_def bare_errors_def)
    next
      case (Some room)
      show ?thesis
      proof (cases "map_of (participants room) d")
        case nd: None
        with None data Inr t assms Some have "rooms' = rooms" "ns = []"
          "r = Reply 403 (JObj [(''error'', JStr ''Developer not in room'')])"
          by (simp_all add: report_commit_def)
        then show ?thesis
          by (intro refused) (auto simp: error_without_message_def bare_errors_def)
      next
        case present: (Some info)
        let ?c = "\<lparr>c_commit_hash = h, c_branch = b, c_commit_message = m,
                    c_developer_id = d, c_timestamp = now\<rparr>"
        from present None data Inr t assms Some have
          "r = Reply 200 (JObj [(''status'', JStr ''success'')])"
          "rooms' = AList.update code (room\<lparr>commits := commits room @ [?c]\<rparr>) rooms"
          by (simp_all add: report_commit_def Let_def)
        moreover have "map_of (participants room) (c_developer_id ?c) \<noteq> None"
          using present by simp
        ultimately show ?thesis using Some by (intro reported)
      qed
    qed
  qed
qed

lemma delete_room_cases:
  assumes "delete_room key req path rooms = (r, ns, rooms')"
  obtains
    (refused) "rooms' = rooms" "ns = []"
      "escaped r \<or> error_with_message r \<or> error_without_message r"
  | (deleted) code b where
      "map_of rooms code \<noteq> None" "r = Reply 200 b" "ns = [RoomUpdate code]"
      "rooms' = AList.delete code rooms"
proof (cases "require_admin_auth key req")
  case (Some g)
  with assms have "r = g" "rooms' = rooms" "ns = []" by (simp_all add: delete_room_def)
  with Some auth_reply show ?thesis by (intro refused) auto
next
  case None
  show ?thesis
  proof (cases "checked (validate_room_code (JStr path))")
    case (Inl e)
    with None assms have "r = e" "rooms' = rooms" "ns = []"
      by (simp_all add: delete_room_def)
    with Inl early_checked early_reply_shape show ?thesis by (intro refused) auto
  next
    case (Inr code)
    show ?thesis
    proof (cases "map_of rooms code")
      case nf: None
      with None Inr assms have "rooms' = rooms" "ns = []"
        "r = Reply 404 (JObj [(''error'', JStr ''Room not found'')])"
        by (simp_all add: delete_room_def)
      then show ?thesis
        by (intro refused) (auto simp: error_without_message_def bare_errors_def)
    next
      case (Some room)
      with None Inr assms have "\<exists>b. r = Reply 200 b" "ns = [RoomUpdate code]"
        "rooms' = AList.delete code rooms"
        by (auto simp: delete_room_def simp del: validate_room_code.simps)
      with Some show ?thesis by (elim exE, intro deleted) simp_all
    qed
  qed
qed

section \<open>Reachable room tables are well formed\<close>

lemma list_all_update:
  "list_all P al \<Longrightarrow> P (k, v) \<Longrightarrow> list_all P (AList.update k v al)"
  by (induction al) auto

lemma list_all_delete: "list_all P al \<Longrightarrow> list_all P (AList.delete k al)"
  by (induction al) auto

lemma rooms_ok_lookup: "rooms_ok rooms \<Longrightarrow> map_of rooms code = Some room \<Longrightarrow> room_ok (code, room)"
  by (auto simp: rooms_ok_def list_all_iff dest: map_of_SomeD)

lemma derived_code_fixed:
  "validate_project_name vp = Inr code \<Longrightarrow> validate_room_code (JStr code) = Inr code"
  using validate_project_name_Inr [of vp code] by (intro validate_room_code_fixed) simp_all

lemma subdomain_url_of_mark_disconnected [simp]:
  "subdomain_url_of (mark_disconnected info) = subdomain_url_of info"
  by (cases info) auto

lemma create_room_ok:
  assumes "create_room req rooms = (r, ns, rooms')" "rooms_ok rooms"
  shows "rooms_ok rooms'"
  using assms(1)
proof (cases rule: create_room_cases)
  case refused
  with assms(2) show ?thesis by simp
next
  case (created code d u vp vd vu)
  have "room_ok (code, \<lparr>participants = [(d, Legacy u)], commits = []\<rparr>)"
    using derived_code_fixed [OF created(1)] validate_developer_id_nonempty [OF created(2)]
      validate_subdomain_url_nonempty [OF created(3)]
    by (simp add: room_ok_def)
  with assms(2) show ?thesis
    unfolding created(7) rooms_ok_def by (rule list_all_update)
qed

lemma join_room_ok:
  assumes "join_room req rooms = (r, ns, rooms')" "rooms_ok rooms"
  shows "rooms_ok rooms'"
  using assms(1)
proof (cases rule: join_room_cases)
  case refused
  with assms(2) show ?thesis by simp
next
  case (joined code d u room vd vu b)
  from rooms_ok_lookup [OF assms(2) joined(3)]
  have "room_ok (code,
      room\<lparr>participants := AList.update d (Structured u True) (participants room)\<rparr>)"
    using validate_developer_id_nonempty [OF joined(1)]
      validate_subdomain_url_nonempty [OF joined(2)]
    by (simp add: room_ok_def list_all_update)
  with assms(2) show ?thesis
    unfolding joined(6) rooms_ok_def by (rule list_all_update)
qed

lemma leave_room_ok:
  assumes "leave_room req rooms = (r, ns, rooms')" "rooms_ok rooms"
  shows "rooms_ok rooms'"
  using assms(1)
proof (cases rule: leave_room_cases)
  case refused
  with assms(2) show ?thesis by simp
next
  case (left code d room info)
  from rooms_ok_lookup [OF assms(2) left(1)] have ok: "room_ok (code, room)" .
  from left(2) have "(d, info) \<in> set (participants room)" by (rule map_of_SomeD)
  with ok have "d \<noteq> [] \<and> subdomain_url_of info \<noteq> []"
    by (auto simp: room_ok_def list_all_iff)
  with ok have "room_ok (code,
      room\<lparr>participants := AList.update d (mark_disconnected info) (participants room)\<rparr>)"
    by (simp add: room_ok_def list_all_update)
  with assms(2) show ?thesis
    unfolding left(5) rooms_ok_def by (rule list_all_update)
qed

lemma report_commit_ok:
  assumes "report_commit now req rooms = (r, ns, rooms')" "rooms_ok rooms"
  shows "rooms_ok rooms'"
  using assms(1)
proof (cases rule: report_commit_cases)
  case refused
  with assms(2) show ?thesis by simp
next
  case (reported code room commit)
  from rooms_ok_lookup [OF assms(2) reported(1)]
  have "room_ok (code, room\<lparr>commits := commits room @ [commit]\<rparr>)"
    by (simp add: room_ok_def)
  with assms(2) show ?thesis
    unfolding reported(4) rooms_ok_def by (rule list_all_update)
qed

lemma delete_room_ok:
  assumes "delete_room key req path rooms = (r, ns, rooms')" "rooms_ok rooms"
  shows "rooms_ok rooms'"
  using assms(1)
proof (cases rule: delete_room_cases)
  case refused
  with assms(2) show ?thesis by simp
next
  case (deleted code b)
  with assms(2) show ?thesis by (simp add: rooms_ok_def list_all_delete)
qed

lemma backend_step_ok:
  assumes "backend_step key netloc c rooms = (r, ns, rooms')" "rooms_ok rooms"
  shows "rooms_ok rooms'"
  using assms
  by (cases c)
    (auto intro: create_room_ok join_room_ok leave_room_ok report_commit_ok delete_room_ok)

lemma reachable_rooms_ok: "reachable rooms \<Longrightarrow> rooms_ok rooms"
proof (induction rule: reachable.induct)
  case start
  show ?case by (simp add: rooms_ok_def)
next
  case (step rooms key netloc c r ns rooms')
  then show ?case by (blast intro: backend_step_ok)
qed

lemma reachable_run: "reachable rooms \<Longrightarrow> reachable (run key netloc cs rooms)"
proof (induction cs arbitrary: rooms)
  case Nil
  then show ?case by simp
next
  case (Cons c cs)
  obtain r ns rooms' where s: "backend_step key netloc c rooms = (r, ns, rooms')"
    by (cases "backend_step key netloc c rooms")
  with Cons.prems have "reachable rooms'" by (rule reachable.step)
  then have "reachable (run key netloc cs rooms')" by (rule Cons.IH)
  with s show ?case by simp
qed

section \<open>The active developer\<close>

lemma status_commit_scan_eq: "status_commit_scan cs ps = url_commit_scan cs ps"
  by (induction cs) (auto simp: Let_def split: option.splits)

lemma status_first_connected_eq: "status_first_connected ps = url_first_connected ps"
  by (induction ps) auto

lemma status_active_developer_eq: "status_active_developer cs ps = url_active_developer cs ps"
  unfolding status_active_developer_def url_active_developer_def status_commit_scan_eq
    status_first_connected_eq by (rule refl)

lemma url_commit_scan_find:
  "url_commit_scan cs ps =
     map_option c_developer_id (find (\<lambda>c. connected_participant ps (c_developer_id c)) cs)"
  by (induction cs) (auto simp: Let_def connected_participant_def split: option.splits)

lemma url_first_connected_find:
  "url_first_connected ps = map_option fst (find (\<lambda>(d, info). is_connected info) ps)"
  by (induction ps) auto

lemma url_commit_scan_Nil: "url_commit_scan cs [] = None"
  by (induction cs) (auto simp: Let_def)

lemma url_active_developer_spec:
  assumes "\<forall>(d, info)\<in>set ps. d \<noteq> []"
  shows "url_active_developer cs ps = spec_active_developer cs ps"
proof (cases "ps = []")
  case True
  then show ?thesis
    by (simp add: url_active_developer_def spec_active_developer_def is_set_def
        url_commit_scan_Nil Let_def)
next
  case ne: False
  let ?f = "find (\<lambda>c. connected_participant ps (c_developer_id c)) (rev cs)"
  show ?thesis
  proof (cases ?f)
    case (Some c)
    then have "connected_participant ps (c_developer_id c)"
      by (auto simp: find_Some_iff)
    then obtain info where "map_of ps (c_developer_id c) = Some info"
      by (auto simp: connected_participant_def split: option.splits)
    then have "(c_developer_id c, info) \<in> set ps" by (rule map_of_SomeD)
    with assms have "c_developer_id c \<noteq> []" by auto
    moreover from Some have "cs \<noteq> []" by auto
    ultimately show ?thesis using Some ne
      by (simp add: url_active_developer_def spec_active_developer_def is_set_def
          url_commit_scan_find Let_def)
  next
    case None
    then have a1: "(if cs \<noteq> [] then (case url_commit_scan (rev cs) ps of Some d \<Rightarrow> Some d
        | None \<Rightarrow> None) else None) = None"
      by (simp add: url_commit_scan_find)
    show ?thesis
    proof (cases "find (\<lambda>(d, info). is_connected info) ps")
      case nf: None
      with None ne a1 show ?thesis
        by (simp add: url_active_developer_def spec_active_developer_def is_set_def
            url_first_connected_find Let_def)
    next
      case (Some e)
      obtain d info where e: "e = (d, info)" by (cases e)
      from Some e have "(d, info) \<in> set ps" by (metis find_Some_iff nth_mem)
      with assms have "d \<noteq> []" by auto
      with None ne a1 Some e show ?thesis
        by (simp add: url_active_developer_def spec_active_developer_def is_set_def
            url_first_connected_find Let_def)
    qed
  qed
qed

lemma demo_run: "run ''key'' urlparse_netloc demo_calls [] = [(''demo'', demo_room)]"
  by code_simp

lemma demo_reachable: "reachable [(''demo'', demo_room)]"
  using reachable_run [OF reachable.start, of "''key''" urlparse_netloc demo_calls]
  by (simp only: demo_run)

lemma room_ok_code:
  "room_ok (code, room) \<Longrightarrow> validate_room_code (JStr code) = Inr code \<and> code \<noteq> []"
  by (auto simp: room_ok_def)

lemma room_ok_names:
  "room_ok (code, room) \<Longrightarrow> \<forall>(d, info)\<in>set (participants room). d \<noteq> []"
  by (auto simp: room_ok_def list_all_iff)

text \<open>
  C1. In every room of a reachable table somebody participates, and both
  \<open>get_active_url\<close> and \<open>get_room_status\<close> compute the active developer the
  specification describes: the newest commit whose developer is a connected participant
  (a bare-string participant counts as connected), else the first connected participant
  in insertion order, else the very first participant; the status reply carries that
  name. Without participants nobody is active, and on any commits and participants
  whatever the two handlers compute the same.
\<close>

theorem active_developer_resolution:
  assumes "reachable rooms" and "map_of rooms code = Some room"
  shows "participants room \<noteq> []
    \<and> url_active_developer (commits room) (participants room)
        = spec_active_developer (commits room) (participants room)
    \<and> status_active_developer (commits room) (participants room)
        = spec_active_developer (commits room) (participants room)
    \<and> (map_of (args req) ''room'' = Some code \<longrightarrow>
         field (get_room_status req rooms) ''active_developer''
           = Some (opt_str (spec_active_developer (commits room) (participants room))))
    \<and> url_active_developer cs [] = None \<and> status_active_developer cs [] = None
    \<and> spec_active_developer cs [] = None
    \<and> url_active_developer cs ps = status_active_developer cs ps"
proof -
  from assms have ok: "room_ok (code, room)"
    by (blast intro: rooms_ok_lookup reachable_rooms_ok)
  then have ne: "participants room \<noteq> []" by (simp add: room_ok_def)
  have url: "url_active_developer (commits room) (participants room)
      = spec_active_developer (commits room) (participants room)"
    using room_ok_names [OF ok] by (rule url_active_developer_spec)
  then have st: "status_active_developer (commits room) (participants room)
      = spec_active_developer (commits room) (participants room)"
    by (simp add: status_active_developer_eq)
  have "field (get_room_status req rooms) ''active_developer''
      = Some (opt_str (spec_active_developer (commits room) (participants room)))"
    if "map_of (args req) ''room'' = Some code"
    using that room_ok_code [OF ok] assms(2) st
    by (simp add: get_room_status_def Let_def del: validate_room_code.simps)
  moreover have "url_active_developer cs [] = None"
    by (simp add: url_active_developer_def url_commit_scan_Nil Let_def)
  moreover have "status_active_developer cs [] = None"
    by (simp add: status_active_developer_eq url_active_developer_def url_commit_scan_Nil Let_def)
  moreover have "spec_active_developer cs [] = None"
    by (simp add: spec_active_developer_def)
  moreover have "url_active_developer cs ps = status_active_developer cs ps"
    by (simp add: status_active_developer_eq)
  ultimately show ?thesis using ne url st by blast
qed

theorem active_developer_resolution_witness:
  "reachable [(''demo'', demo_room)] \<and> map_of [(''demo'', demo_room)] ''demo'' = Some demo_room
     \<and> url_active_developer (commits demo_room) (participants demo_room) = Some ''alice''
     \<and> status_active_developer (commits demo_room) (participants demo_room) = Some ''alice''
     \<and> field (get_room_status (room_query ''demo'') [(''demo'', demo_room)]) ''active_developer''
         = Some (JStr ''alice'')"
proof -
  have look: "map_of [(''demo'', demo_room)] ''demo'' = Some demo_room" by simp
  have spec: "spec_active_developer (commits demo_room) (participants demo_room) = Some ''alice''"
    by code_simp
  have q: "map_of (args (room_query ''demo'')) ''room'' = Some ''demo''"
    by (simp add: room_query_def)
  from active_developer_resolution [OF demo_reachable look, of "room_query ''demo''"] spec q
  show ?thesis using demo_reachable by (simp add: opt_str_def)
qed

text \<open>
  C10. When a mutating endpoint (rooms/create, rooms/join, rooms/leave, report-commit,
  admin room delete) answers with status 400, 401, 403, 404 or 409, the room table
  is the one it was before the request.
\<close>

theorem error_leaves_rooms_unchanged:
  assumes "mutating c" and "backend_step key netloc c rooms = (r, ns, rooms')"
    and "error_status (status r)"
  shows "rooms' = rooms"
proof (cases c)
  case (CreateRoom req)
  with assms(2) have "create_room req rooms = (r, ns, rooms')" by simp
  then show ?thesis using assms(3) by (cases rule: create_room_cases) (auto simp: error_status_def)
next
  case (JoinRoom req)
  with assms(2) have "join_room req rooms = (r, ns, rooms')" by simp
  then show ?thesis using assms(3) by (cases rule: join_room_cases) (auto simp: error_status_def)
next
  case (LeaveRoom req)
  with assms(2) have "leave_room req rooms = (r, ns, rooms')" by simp
  then show ?thesis using assms(3) by (cases rule: leave_room_cases) (auto simp: error_status_def)
next
  case (ReportCommit now req)
  with assms(2) have "report_commit now req rooms = (r, ns, rooms')" by simp
  then show ?thesis using assms(3)
    by (cases rule: report_commit_cases) (auto simp: error_status_def)
next
  case (DeleteRoom req path)
  with assms(2) have "delete_room key req path rooms = (r, ns, rooms')" by simp
  then show ?thesis using assms(3) by (cases rule: delete_room_cases) (auto simp: error_status_def)
qed (use assms(1) in \<open>simp_all add: mutating_def\<close>)

theorem error_leaves_rooms_unchanged_witness:
  "mutating (leave_call ''demo'' ''carol'')
     \<and> backend_step ''key'' urlparse_netloc (leave_call ''demo'' ''carol'') [(''demo'', demo_room)]
         = (Reply 404 (JObj [(''error'', JStr ''Developer not in room'')]), [],
            [(''demo'', demo_room)])
     \<and> error_status 404"
proof -
  have m: "mutating (leave_call ''demo'' ''carol'')"
    by (simp add: mutating_def leave_call_def)
  obtain r ns rooms' where
    s: "backend_step ''key'' urlparse_netloc (leave_call ''demo'' ''carol'')
          [(''demo'', demo_room)] = (r, ns, rooms')"
    by (rule prod_cases3)
  have "fst (backend_step ''key'' urlparse_netloc (leave_call ''demo'' ''carol'')
          [(''demo'', demo_room)]) = Reply 404 (JObj [(''error'', JStr ''Developer not in room'')])"
    by code_simp
  with s have r: "r = Reply 404 (JObj [(''error'', JStr ''Developer not in room'')])" by simp
  have "fst (snd (backend_step ''key'' urlparse_netloc (leave_call ''demo'' ''carol'')
          [(''demo'', demo_room)])) = []"
    by code_simp
  with s have ns: "ns = []" by simp
  have e: "error_status (status r)" by (simp add: r error_status_def)
  from error_leaves_rooms_unchanged [OF m s e] r ns s m show ?thesis
    by (simp add: error_status_def)
qed

section \<open>Replies of get-active-url\<close>

lemma url_commit_scan_member: "url_commit_scan cs ps = Some d \<Longrightarrow> map_of ps d \<noteq> None"
  by (induction cs) (auto simp: Let_def split: option.splits if_splits)

lemma url_first_connected_member: "url_first_connected ps = Some d \<Longrightarrow> map_of ps d \<noteq> None"
  by (induction ps) (auto split: if_splits)

lemma url_active_developer_member:
  assumes "ps \<noteq> []" "url_active_developer cs ps = Some d"
  shows "map_of ps d \<noteq> None"
proof -
  have hd: "map_of ps (fst (hd ps)) \<noteq> None" using assms(1) by (cases ps) auto
  consider "url_commit_scan (rev cs) ps = Some d" | "url_first_connected ps = Some d"
    | "d = fst (hd ps)"
    using assms
    by (auto simp: url_active_developer_def Let_def is_set_def split: option.splits if_splits)
  then show ?thesis
    using hd by cases (auto dest: url_commit_scan_member url_first_connected_member)
qed

lemma validate_room_code_nonempty:
  assumes "validate_room_code v = Inr code"
  shows "code \<noteq> []"
proof (cases v)
  case (JStr s)
  with assms have pat: "ROOM_CODE_PATTERN s" and c: "code = py_strip s"
    by (auto split: if_splits)
  from pat have b: "chomp_newline s \<noteq> []" and "room_code_char (hd (chomp_newline s))"
    by (auto simp: ROOM_CODE_PATTERN_def Let_def list_all_iff)
  with hd_chomp_newline [OF b] have "s \<noteq> []" "\<not> is_space (hd s)"
    using room_code_char_not_space by auto
  then show ?thesis using py_strip_keeps_hd c by simp
qed (use assms in simp_all)

lemma get_active_url_not_given:
  "requested_room req = None \<Longrightarrow> get_active_url netloc req rooms = no_active_url"
  by (auto simp: requested_room_def get_active_url_def simp del: validate_room_code.simps
      split: option.splits if_splits)

lemma get_active_url_invalid:
  "requested_room req = Some (Inl (ValidationError e)) \<Longrightarrow>
     get_active_url netloc req rooms = validation_failed e"
  by (auto simp: requested_room_def get_active_url_def simp del: validate_room_code.simps
      split: option.splits if_splits)

lemma get_active_url_valid:
  assumes "requested_room req = Some (Inr code)"
  shows "get_active_url netloc req rooms =
     (case map_of rooms code of
        None \<Rightarrow> no_active_url
      | Some room \<Rightarrow>
         (case url_active_developer (commits room) (participants room) of
            None \<Rightarrow> no_active_url
          | Some d \<Rightarrow>
             (case map_of (participants room) d of
                None \<Rightarrow> no_active_url
              | Some info \<Rightarrow>
                 if participants room = [] \<or> d = [] \<or> subdomain_url_of info = []
                 then no_active_url
                 else (case netloc (subdomain_url_of info) of
                         None \<Rightarrow> no_active_url
                       | Some h \<Rightarrow> Reply 200 (JObj [(''active_url'',
                                    JStr (''http://127.0.0.1:7101|Host:'' @ h))])))))"
proof -
  from assms obtain rc where rc: "map_of (args req) ''room'' = Some rc" "rc \<noteq> []"
    "validate_room_code (JStr rc) = Inr code"
    by (auto simp: requested_room_def split: option.splits if_splits)
  show ?thesis
  proof (cases "map_of rooms code")
    case None
    with rc show ?thesis
      by (simp add: get_active_url_def del: validate_room_code.simps)
  next
    case (Some room)
    show ?thesis
    proof (cases "participants room = []")
      case True
      with rc Some show ?thesis
        by (simp add: get_active_url_def url_active_developer_def url_commit_scan_Nil Let_def
            del: validate_room_code.simps)
    next
      case False
      note code = validate_room_code_nonempty [OF rc(3)]
      show ?thesis
      proof (cases "url_active_developer (commits room) (participants room)")
        case None
        with rc Some False code show ?thesis
          by (simp add: get_active_url_def del: validate_room_code.simps)
      next
        case active: (Some d)
        from url_active_developer_member [OF False active]
        obtain info where "map_of (participants room) d = Some info" by auto
        with rc Some False code active show ?thesis
          by (simp add: get_active_url_def Let_def del: validate_room_code.simps)
      qed
    qed
  qed
qed

lemma url_active_developer_Nil: "url_active_developer cs [] = None"
  by (simp add: url_active_developer_def url_commit_scan_Nil Let_def)

lemma get_active_url_valid_status:
  assumes "requested_room req = Some (Inr code)"
  shows "status (get_active_url netloc req rooms) = 200"
  unfolding get_active_url_valid [OF assms]
  by (simp add: no_active_url_def split: option.splits)

lemma url_active_developer_Some:
  "ps \<noteq> [] \<Longrightarrow> \<exists>d. url_active_developer cs ps = Some d"
  by (auto simp: url_active_developer_def Let_def is_set_def split: option.splits)

text \<open>
  C5 (amended). \<open>get_active_url\<close> answers 200 unless a non-empty \<open>room\<close> parameter fails
  the room-code validation; then it answers 400 with the validation error. With no
  \<open>room\<close> parameter, an unknown room or a room without participants the reply is
  \<open>{"active_url": null}\<close>. In a room with participants an active developer is resolved;
  the reply is \<open>{"active_url": null}\<close> as well when that developer's name or tunnel
  URL is empty or the URL does not parse, and the rewritten tunnel address otherwise.
\<close>

theorem get_active_url_status:
  "(requested_room req = None \<longrightarrow> get_active_url netloc req rooms = no_active_url)
   \<and> (requested_room req = Some (Inl (ValidationError e)) \<longrightarrow>
        get_active_url netloc req rooms = validation_failed e
        \<and> status (get_active_url netloc req rooms) = 400)
   \<and> (requested_room req = Some (Inr code) \<longrightarrow>
        status (get_active_url netloc req rooms) = 200
        \<and> (map_of rooms code = None \<longrightarrow> get_active_url netloc req rooms = no_active_url)
        \<and> (map_of rooms code = Some room \<and> participants room = [] \<longrightarrow>
             get_active_url netloc req rooms = no_active_url))
   \<and> no_active_url = Reply 200 (JObj [(''active_url'', JNull)])
   \<and> status (get_active_url netloc req rooms)
        = (case requested_room req of Some (Inl x) \<Rightarrow> 400 | _ \<Rightarrow> 200)
   \<and> (participants room \<noteq> [] \<longrightarrow>
        (\<exists>d info. url_active_developer (commits room) (participants room) = Some d
           \<and> map_of (participants room) d = Some info))
   \<and> (requested_room req = Some (Inr code) \<and> map_of rooms code = Some room
        \<and> participants room \<noteq> []
        \<and> url_active_developer (commits room) (participants room) = Some d
        \<and> map_of (participants room) d = Some info \<longrightarrow>
        (d = [] \<or> subdomain_url_of info = [] \<or> netloc (subdomain_url_of info) = None \<longrightarrow>
           get_active_url netloc req rooms = no_active_url)
        \<and> (d \<noteq> [] \<and> subdomain_url_of info \<noteq> [] \<and> netloc (subdomain_url_of info) = Some h \<longrightarrow>
             get_active_url netloc req rooms
               = Reply 200 (JObj [(''active_url'', JStr (''http://127.0.0.1:7101|Host:'' @ h))])))"
proof -
  have a: "get_active_url netloc req rooms = no_active_url" if "requested_room req = None"
    using that by (rule get_active_url_not_given)
  have b: "get_active_url netloc req rooms = validation_failed e
      \<and> status (get_active_url netloc req rooms) = 400"
    if "requested_room req = Some (Inl (ValidationError e))"
    using get_active_url_invalid [OF that] by (simp add: validation_failed_def)
  have c: "status (get_active_url netloc req rooms) = 200
      \<and> (map_of rooms code = None \<longrightarrow> get_active_url netloc req rooms = no_active_url)
      \<and> (map_of rooms code = Some room \<and> participants room = [] \<longrightarrow>
           get_active_url netloc req rooms = no_active_url)"
    if "requested_room req = Some (Inr code)"
  proof -
    have "get_active_url netloc req rooms = no_active_url" if "map_of rooms code = None"
      using that by (simp add: get_active_url_valid [OF \<open>requested_room req = Some (Inr code)\<close>])
    moreover have "get_active_url netloc req rooms = no_active_url"
      if "map_of rooms code = Some room \<and> participants room = []"
      using that
      by (simp add: get_active_url_valid [OF \<open>requested_room req = Some (Inr code)\<close>]
          url_active_developer_Nil)
    ultimately show ?thesis
      using get_active_url_valid_status [OF that] by blast
  qed
  have d: "status (get_active_url netloc req rooms)
      = (case requested_room req of Some (Inl x) \<Rightarrow> 400 | _ \<Rightarrow> 200)"
  proof (cases "requested_room req")
    case None
    then show ?thesis by (simp add: get_active_url_not_given no_active_url_def)
  next
    case (Some v)
    show ?thesis
    proof (cases v)
      case (Inl x)
      obtain m where "x = ValidationError m" by (cases x)
      with Some Inl show ?thesis
        by (simp add: get_active_url_invalid validation_failed_def)
    next
      case (Inr y)
      with Some show ?thesis by (simp add: get_active_url_valid_status)
    qed
  qed
  have f: "\<exists>d info. url_active_developer (commits room) (participants room) = Some d
      \<and> map_of (participants room) d = Some info"
    if ne: "participants room \<noteq> []"
  proof -
    from url_active_developer_Some [OF ne] obtain d where
      d: "url_active_developer (commits room) (participants room) = Some d" by blast
    from url_active_developer_member [OF ne d] d show ?thesis by auto
  qed
  have g: "(d = [] \<or> subdomain_url_of info = [] \<or> netloc (subdomain_url_of info) = None \<longrightarrow>
           get_active_url netloc req rooms = no_active_url)
        \<and> (d \<noteq> [] \<and> subdomain_url_of info \<noteq> [] \<and> netloc (subdomain_url_of info) = Some h \<longrightarrow>
             get_active_url netloc req rooms
               = Reply 200 (JObj [(''active_url'', JStr (''http://127.0.0.1:7101|Host:'' @ h))]))"
    if h: "requested_room req = Some (Inr code) \<and> map_of rooms code = Some room
        \<and> participants room \<noteq> []
        \<and> url_active_developer (commits room) (participants room) = Some d
        \<and> map_of (participants room) d = Some info"
  proof -
    from h have q: "requested_room req = Some (Inr code)" by simp
    from h show ?thesis by (auto simp: get_active_url_valid [OF q])
  qed
  from a b c d have old:
    "(requested_room req = None \<longrightarrow> get_active_url netloc req rooms = no_active_url)
     \<and> (requested_room req = Some (Inl (ValidationError e)) \<longrightarrow>
          get_active_url netloc req rooms = validation_failed e
          \<and> status (get_active_url netloc req rooms) = 400)
     \<and> (requested_room req = Some (Inr code) \<longrightarrow>
          status (get_active_url netloc req rooms) = 200
          \<and> (map_of rooms code = None \<longrightarrow> get_active_url netloc req rooms = no_active_url)
          \<and> (map_of rooms code = Some room \<and> participants room = [] \<longrightarrow>
               get_active_url netloc req rooms = no_active_url))
     \<and> no_active_url = Reply 200 (JObj [(''active_url'', JNull)])
     \<and> status (get_active_url netloc req rooms)
          = (case requested_room req of Some (Inl x) \<Rightarrow> 400 | _ \<Rightarrow> 200)"
    by (simp add: no_active_url_def validation_failed_def)
  from old f g show ?thesis by blast
qed

theorem get_active_url_status_witness:
  "requested_room (room_query ''Demo'') = Some (Inl (ValidationError
       ''room_code must contain only lowercase letters, numbers, and hyphens''))
   \<and> status (get_active_url urlparse_netloc (room_query ''Demo'') [(''demo'', demo_room)]) = 400
   \<and> requested_room (room_query []) = None
   \<and> get_active_url urlparse_netloc (room_query []) [(''demo'', demo_room)]
       = Reply 200 (JObj [(''active_url'', JNull)])
   \<and> requested_room (room_query ''other'') = Some (Inr ''other'')
   \<and> map_of [(''demo'', demo_room)] ''other'' = None
   \<and> get_active_url urlparse_netloc (room_query ''other'') [(''demo'', demo_room)]
       = Reply 200 (JObj [(''active_url'', JNull)])
   \<and> requested_room (room_query ''demo'') = Some (Inr ''demo'')
   \<and> map_of [(''demo'', demo_room)] ''demo'' = Some demo_room
   \<and> participants demo_room \<noteq> []
   \<and> url_active_developer (commits demo_room) (participants demo_room) = Some ''alice''
   \<and> map_of (participants demo_room) ''alice'' = Some (Legacy alice_url)
   \<and> netloc_raises (subdomain_url_of (Legacy alice_url)) = None
   \<and> get_active_url netloc_raises (room_query ''demo'') [(''demo'', demo_room)]
       = Reply 200 (JObj [(''active_url'', JNull)])
   \<and> urlparse_netloc (subdomain_url_of (Legacy alice_url)) = Some ''dev-alice-demo.m-act.live''
   \<and> get_active_url urlparse_netloc (room_query ''demo'') [(''demo'', demo_room)]
       = Reply 200 (JObj [(''active_url'',
           JStr ''http://127.0.0.1:7101|Host:dev-alice-demo.m-act.live'')])"
proof -
  have a: "requested_room (room_query ''Demo'') = Some (Inl (ValidationError
       ''room_code must contain only lowercase letters, numbers, and hyphens''))"
    by code_simp
  have b: "requested_room (room_query []) = None" by code_simp
  have c: "requested_room (room_query ''other'') = Some (Inr ''other'')" by code_simp
  have d: "map_of [(''demo'', demo_room)] ''other'' = None" by simp
  have q: "requested_room (room_query ''demo'') = Some (Inr ''demo'')" by code_simp
  have look: "map_of [(''demo'', demo_room)] ''demo'' = Some demo_room" by simp
  have ne: "participants demo_room \<noteq> []" by (simp add: demo_room_def)
  have act: "url_active_developer (commits demo_room) (participants demo_room) = Some ''alice''"
    by code_simp
  have info: "map_of (participants demo_room) ''alice'' = Some (Legacy alice_url)"
    by (simp add: demo_room_def)
  have url: "subdomain_url_of (Legacy alice_url) \<noteq> []" by (simp add: alice_url_def)
  have r: "netloc_raises (subdomain_url_of (Legacy alice_url)) = None"
    by (simp add: netloc_raises_def)
  have loc: "urlparse_netloc (subdomain_url_of (Legacy alice_url))
      = Some ''dev-alice-demo.m-act.live''"
    by code_simp
  note t1 = get_active_url_status [where req = "room_query ''Demo''" and netloc = urlparse_netloc
      and rooms = "[(''demo'', demo_room)]"
      and e = "''room_code must contain only lowercase letters, numbers, and hyphens''"
      and code = "''x''" and room = demo_room and d = "''alice''" and info = "Legacy alice_url"
      and h = "''x''"]
  note t2 = get_active_url_status [where req = "room_query []" and netloc = urlparse_netloc
      and rooms = "[(''demo'', demo_room)]" and e = "''e''" and code = "''x''"
      and room = demo_room and d = "''alice''" and info = "Legacy alice_url" and h = "''x''"]
  note t3 = get_active_url_status [where req = "room_query ''other''" and netloc = urlparse_netloc
      and rooms = "[(''demo'', demo_room)]" and e = "''e''" and code = "''other''"
      and room = demo_room and d = "''alice''" and info = "Legacy alice_url" and h = "''x''"]
  note t4 = get_active_url_status [where req = "room_query ''demo''" and netloc = netloc_raises
      and rooms = "[(''demo'', demo_room)]" and e = "''e''" and code = "''demo''"
      and room = demo_room and d = "''alice''" and info = "Legacy alice_url" and h = "''x''"]
  note t5 = get_active_url_status [where req = "room_query ''demo''" and netloc = urlparse_netloc
      and rooms = "[(''demo'', demo_room)]" and e = "''e''" and code = "''demo''"
      and room = demo_room and d = "''alice''" and info = "Legacy alice_url"
      and h = "''dev-alice-demo.m-act.live''"]
  from t1 a have "status (get_active_url urlparse_netloc (room_query ''Demo'')
      [(''demo'', demo_room)]) = 400" by blast
  moreover from t2 b have "get_active_url urlparse_netloc (room_query [])
      [(''demo'', demo_room)] = Reply 200 (JObj [(''active_url'', JNull)])" by metis
  moreover from t3 c d have "get_active_url urlparse_netloc (room_query ''other'')
      [(''demo'', demo_room)] = Reply 200 (JObj [(''active_url'', JNull)])" by metis
  moreover from t4 q look ne act info r
  have "get_active_url netloc_raises (room_query ''demo'') [(''demo'', demo_room)]
      = Reply 200 (JObj [(''active_url'', JNull)])" by metis
  moreover from t5 q look ne act info url loc
  have "get_active_url urlparse_netloc (room_query ''demo'') [(''demo'', demo_room)]
       = Reply 200 (JObj [(''active_url'',
           JStr (''http://127.0.0.1:7101|Host:'' @ ''dev-alice-demo.m-act.live''))])"
    by blast
  ultimately show ?thesis using a b c d q look ne act info r loc by simp
qed

theorem get_active_url_status_counterexample:
  "status (get_active_url urlparse_netloc (room_query ''Demo'') []) \<noteq> 200"
  by code_simp

section \<open>The Host override\<close>

lemma split_at_first_append:
  "split_at_first sep s = Some (a, b) \<Longrightarrow> s = a @ sep @ b"
proof (induction s arbitrary: a b)
  case Nil
  then show ?case by simp
next
  case (Cons c cs)
  show ?case
  proof (cases "startswith (c # cs) sep")
    case True
    with Cons.prems have "a = []" "b = drop (length sep) (c # cs)" by auto
    moreover from True have "take (length sep) (c # cs) = sep" by (simp add: startswith_def)
    ultimately show ?thesis by (metis append_Nil append_take_drop_id)
  next
    case False
    with Cons.prems obtain a' where "split_at_first sep cs = Some (a', b)" "a = c # a'"
      by (auto split: option.splits)
    with Cons.IH show ?thesis by auto
  qed
qed

lemma contains_split_at_first:
  "sep \<noteq> [] \<Longrightarrow> contains sep s \<Longrightarrow> split_at_first sep s \<noteq> None"
  by (induction s) auto

lemma split_at_first_contains:
  "split_at_first sep s = Some (a, b) \<Longrightarrow> contains sep s"
  by (induction s arbitrary: a) (auto split: if_splits)

lemma mirror_host_override_split:
  assumes "contains ''|Host:'' u"
  shows "\<exists>base host. mirror_host_override u = Some (base, Some host)
           \<and> u = base @ ''|Host:'' @ host"
proof -
  from contains_split_at_first [OF _ assms] obtain a b where
    s: "split_at_first ''|Host:'' u = Some (a, b)" by auto
  from split_at_first_append [OF s] have "u = a @ ''|Host:'' @ b" .
  moreover from s assms have "mirror_host_override u = Some (a, Some b)"
    by (simp add: mirror_host_override_def py_split1_def)
  ultimately show ?thesis by blast
qed

lemma mirror_host_override_backend:
  "mirror_host_override (''http://127.0.0.1:7101|Host:'' @ h)
     = Some (''http://127.0.0.1:7101'', Some h)"
  by (simp add: mirror_host_override_def py_split1_def startswith_def)

text \<open>
  C2. In a reachable table, when \<open>get_active_url\<close> resolves an active developer whose
  tunnel URL has the network location \<open>h\<close>, the reply is 200 with \<open>active_url\<close> equal to
  \<open>http://127.0.0.1:7101|Host:\<close> followed by \<open>h\<close>. The mirror takes that string apart
  again into the base address \<open>http://127.0.0.1:7101\<close> and the Host override \<open>h\<close>, and
  any \<open>active_url\<close> containing \<open>|Host:\<close> into the text before the delimiter and the
  Host override after it; one without the delimiter is left as it is. A non-empty
  override becomes the \<open>host\<close> header of the upstream request.
\<close>

theorem active_url_encoding:
  assumes "reachable rooms" and "requested_room req = Some (Inr code)"
    and "map_of rooms code = Some room"
    and "url_active_developer (commits room) (participants room) = Some d"
    and "map_of (participants room) d = Some info"
    and "netloc (subdomain_url_of info) = Some h"
  shows "get_active_url netloc req rooms
           = Reply 200 (JObj [(''active_url'', JStr (''http://127.0.0.1:7101|Host:'' @ h))])
    \<and> mirror_host_override (''http://127.0.0.1:7101|Host:'' @ h)
           = Some (''http://127.0.0.1:7101'', Some h)
    \<and> (contains ''|Host:'' u \<longrightarrow>
          (\<exists>base host. mirror_host_override u = Some (base, Some host)
             \<and> u = base @ ''|Host:'' @ host))
    \<and> (\<not> contains ''|Host:'' u \<longrightarrow> mirror_host_override u = Some (u, None))
    \<and> (h \<noteq> [] \<longrightarrow> map_of (upstream_host headers (Some h)) ''host'' = Some h)
    \<and> upstream_host headers (Some []) = headers \<and> upstream_host headers None = headers"
proof -
  from assms(1,3) have ok: "room_ok (code, room)"
    by (blast intro: rooms_ok_lookup reachable_rooms_ok)
  from assms(5) have "(d, info) \<in> set (participants room)" by (rule map_of_SomeD)
  with ok have "participants room \<noteq> []" "d \<noteq> []" "subdomain_url_of info \<noteq> []"
    by (auto simp: room_ok_def list_all_iff)
  with assms(3-6) have "get_active_url netloc req rooms
      = Reply 200 (JObj [(''active_url'', JStr (''http://127.0.0.1:7101|Host:'' @ h))])"
    by (simp add: get_active_url_valid [OF assms(2)])
  moreover have "\<not> contains ''|Host:'' u \<Longrightarrow> mirror_host_override u = Some (u, None)"
    by (simp add: mirror_host_override_def)
  moreover have "h \<noteq> [] \<Longrightarrow> map_of (upstream_host headers (Some h)) ''host'' = Some h"
    by (simp add: upstream_host_def update_conv')
  moreover have "upstream_host headers (Some []) = headers \<and> upstream_host headers None = headers"
    by (simp add: upstream_host_def)
  ultimately show ?thesis
    using mirror_host_override_backend [of h] mirror_host_override_split [of u] by blast
qed

theorem active_url_encoding_witness:
  "reachable [(''demo'', demo_room)] \<and> requested_room (room_query ''demo'') = Some (Inr ''demo'')
    \<and> url_active_developer (commits demo_room) (participants demo_room) = Some ''alice''
    \<and> map_of (participants demo_room) ''alice'' = Some (Legacy ''http://dev-alice-demo.m-act.live'')
    \<and> urlparse_netloc ''http://dev-alice-demo.m-act.live'' = Some ''dev-alice-demo.m-act.live''
    \<and> get_active_url urlparse_netloc (room_query ''demo'') [(''demo'', demo_room)]
        = Reply 200 (JObj [(''active_url'',
            JStr ''http://127.0.0.1:7101|Host:dev-alice-demo.m-act.live'')])
    \<and> contains ''|Host:'' ''http://127.0.0.1:7101|Host:dev-alice-demo.m-act.live''
    \<and> mirror_host_override ''http://127.0.0.1:7101|Host:dev-alice-demo.m-act.live''
        = Some (''http://127.0.0.1:7101'', Some ''dev-alice-demo.m-act.live'')"
proof -
  have q: "requested_room (room_query ''demo'') = Some (Inr ''demo'')" by code_simp
  have look: "map_of [(''demo'', demo_room)] ''demo'' = Some demo_room" by simp
  have act: "url_active_developer (commits demo_room) (participants demo_room) = Some ''alice''"
    by code_simp
  have info: "map_of (participants demo_room) ''alice''
      = Some (Legacy ''http://dev-alice-demo.m-act.live'')"
    by code_simp
  have loc: "urlparse_netloc (subdomain_url_of (Legacy ''http://dev-alice-demo.m-act.live''))
      = Some ''dev-alice-demo.m-act.live''"
    by code_simp
  have c: "contains ''|Host:'' ''http://127.0.0.1:7101|Host:dev-alice-demo.m-act.live''"
    by code_simp
  from active_url_encoding [where netloc = urlparse_netloc
      and u = "''http://127.0.0.1:7101|Host:dev-alice-demo.m-act.live''",
      OF demo_reachable q look act info loc]
  show ?thesis using demo_reachable q act info loc c by simp
qed

section \<open>Error bodies\<close>

lemma validation_failed_shape: "error_with_message (validation_failed e)"
  by (simp add: validation_failed_def error_with_message_def bare_errors_def)

lemma get_active_url_shape:
  "success (get_active_url netloc req rooms) \<or> error_with_message (get_active_url netloc req rooms)"
proof (cases "requested_room req")
  case None
  then show ?thesis by (simp add: get_active_url_not_given no_active_url_def success_def)
next
  case (Some v)
  show ?thesis
  proof (cases v)
    case (Inl x)
    obtain m where "x = ValidationError m" by (cases x)
    with Some Inl show ?thesis by (simp add: get_active_url_invalid validation_failed_shape)
  next
    case (Inr code)
    with Some show ?thesis by (simp add: get_active_url_valid_status success_def)
  qed
qed

lemma not_found_shape: "error_without_message (Reply 404 (JObj [(''error'', JStr ''Room not found'')]))"
  by (simp add: error_without_message_def bare_errors_def)

lemma missing_room_shape:
  "error_without_message (Reply 400 (JObj [(''error'', JStr ''Missing room parameter'')]))"
  by (simp add: error_without_message_def bare_errors_def)

lemma checked_shape: "checked v = Inl r \<Longrightarrow> error_with_message r"
  by (auto simp: checked_Inl validation_failed_shape)

lemma get_room_status_shape:
  "success (get_room_status req rooms) \<or> error_with_message (get_room_status req rooms)
     \<or> error_without_message (get_room_status req rooms)"
proof (cases "map_of (args req) ''room''")
  case None
  then show ?thesis by (simp add: get_room_status_def missing_room_shape)
next
  case (Some rc)
  show ?thesis
  proof (cases "rc = []")
    case True
    with Some show ?thesis by (simp add: get_room_status_def missing_room_shape)
  next
    case False
    show ?thesis
    proof (cases "checked (validate_room_code (JStr rc))")
      case (Inl r)
      with Some False checked_shape [OF Inl] show ?thesis
        by (simp add: get_room_status_def del: validate_room_code.simps)
    next
      case (Inr code)
      with Some False not_found_shape show ?thesis
        by (simp add: get_room_status_def Let_def success_def del: validate_room_code.simps
            split: option.splits)
    qed
  qed
qed

lemma get_room_commits_shape:
  "success (get_room_commits path rooms) \<or> error_with_message (get_room_commits path rooms)
     \<or> error_without_message (get_room_commits path rooms)"
proof (cases "checked (validate_room_code (JStr path))")
  case (Inl r)
  with checked_shape [OF Inl] show ?thesis
    by (simp add: get_room_commits_def del: validate_room_code.simps)
next
  case (Inr code)
  with not_found_shape show ?thesis
    by (simp add: get_room_commits_def success_def del: validate_room_code.simps
        split: option.splits)
qed

lemma list_all_rooms_shape:
  "success (list_all_rooms key req rooms) \<or> error_with_message (list_all_rooms key req rooms)"
  by (cases "require_admin_auth key req")
    (auto simp: list_all_rooms_def success_def dest: auth_reply)

lemma backend_step_shape:
  assumes "backend_step key netloc c rooms = (r, ns, rooms')"
  shows "escaped r \<or> success r \<or> error_with_message r \<or> error_without_message r"
proof (cases c)
  case (CreateRoom req)
  with assms have "create_room req rooms = (r, ns, rooms')" by simp
  then show ?thesis by (cases rule: create_room_cases) (auto simp: success_def)
next
  case (JoinRoom req)
  with assms have "join_room req rooms = (r, ns, rooms')" by simp
  then show ?thesis by (cases rule: join_room_cases) (auto simp: success_def)
next
  case (LeaveRoom req)
  with assms have "leave_room req rooms = (r, ns, rooms')" by simp
  then show ?thesis by (cases rule: leave_room_cases) (auto simp: success_def)
next
  case (ReportCommit now req)
  with assms have "report_commit now req rooms = (r, ns, rooms')" by simp
  then show ?thesis by (cases rule: report_commit_cases) (auto simp: success_def)
next
  case (GetActiveUrl req)
  with assms get_active_url_shape [of netloc req rooms] show ?thesis by auto
next
  case (GetRoomStatus req)
  with assms get_room_status_shape [of req rooms] show ?thesis by auto
next
  case (GetRoomCommits path)
  with assms get_room_commits_shape [of path rooms] show ?thesis by auto
next
  case (ListAllRooms req)
  with assms list_all_rooms_shape [of key req rooms] show ?thesis by auto
next
  case (DeleteRoom req path)
  with assms have "delete_room key req path rooms = (r, ns, rooms')" by simp
  then show ?thesis by (cases rule: delete_room_cases) (auto simp: success_def)
next
  case HealthCheck
  with assms show ?thesis by (auto simp: health_check_def success_def)
qed

text \<open>
  C6 (amended). Every reply with status 400, 401, 403, 404 or 409 that a backend
  endpoint builds itself is a JSON object with an \<open>error\<close> field. It has a \<open>message\<close>
  field as well unless the error is one of "Room not found", "Developer not in room",
  "Room with this project name already exists" and "Missing room parameter", which are
  sent without one. The only other reply with such a status is the framework's own
  page for a body that is not parseable JSON.
\<close>

theorem error_bodies:
  assumes "backend_step key netloc c rooms = (r, ns, rooms')" and "error_status (status r)"
  shows "r = Aborted 400
    \<or> (has_field r ''error''
        \<and> (has_field r ''message''
             \<longleftrightarrow> \<not> (\<exists>e\<in>set bare_errors. field r ''error'' = Some (JStr e))))"
proof -
  from backend_step_shape [OF assms(1)] assms(2)
  consider "r = Aborted 400" | "error_with_message r" | "error_without_message r"
    by (auto simp: success_def error_status_def escaped_def)
  then show ?thesis
  proof cases
    case 1
    then show ?thesis by simp
  next
    case 2
    then show ?thesis by (auto simp: error_with_message_def)
  next
    case 3
    then show ?thesis by (auto simp: error_without_message_def)
  qed
qed

theorem error_bodies_witness:
  "fst (backend_step ''key'' urlparse_netloc (leave_call ''nope'' ''carol'') [])
      = Reply 404 (JObj [(''error'', JStr ''Room not found'')])
   \<and> error_status 404 \<and> ''Room not found'' \<in> set bare_errors
   \<and> fst (backend_step ''key'' urlparse_netloc (GetActiveUrl (room_query ''Demo'')) [])
      = Reply 400 (JObj [(''error'', JStr ''Validation failed''), (''message'',
          JStr ''room_code must contain only lowercase letters, numbers, and hyphens'')])
   \<and> error_status 400 \<and> ''Validation failed'' \<notin> set bare_errors"
proof -
  obtain r ns rooms' where
    s: "backend_step ''key'' urlparse_netloc (leave_call ''nope'' ''carol'') [] = (r, ns, rooms')"
    by (rule prod_cases3)
  have "fst (backend_step ''key'' urlparse_netloc (leave_call ''nope'' ''carol'') [])
      = Reply 404 (JObj [(''error'', JStr ''Room not found'')])"
    by code_simp
  with s have r: "r = Reply 404 (JObj [(''error'', JStr ''Room not found'')])" by simp
  have e: "error_status (status r)" by (simp add: r error_status_def)
  obtain r2 ns2 rooms2 where
    s2: "backend_step ''key'' urlparse_netloc (GetActiveUrl (room_query ''Demo'')) []
           = (r2, ns2, rooms2)"
    by (rule prod_cases3)
  have "fst (backend_step ''key'' urlparse_netloc (GetActiveUrl (room_query ''Demo'')) [])
      = Reply 400 (JObj [(''error'', JStr ''Validation failed''), (''message'',
          JStr ''room_code must contain only lowercase letters, numbers, and hyphens'')])"
    by code_simp
  with s2 have r2: "r2 = Reply 400 (JObj [(''error'', JStr ''Validation failed''), (''message'',
          JStr ''room_code must contain only lowercase letters, numbers, and hyphens'')])"
    by simp
  have e2: "error_status (status r2)" by (simp add: r2 error_status_def)
  from error_bodies [OF s e] error_bodies [OF s2 e2] s s2 r r2
  show ?thesis by (simp add: error_status_def bare_errors_def)
qed

theorem error_bodies_counterexample:
  "error_status (status (fst (backend_step ''key'' urlparse_netloc
       (leave_call ''nope'' ''carol'') [])))
   \<and> \<not> has_field (fst (backend_step ''key'' urlparse_netloc
       (leave_call ''nope'' ''carol'') [])) ''message''"
  by code_simp

section \<open>The frps manager\<close>

lemma is_configured_iff:
  "is_configured os m
     = (\<exists>b. binary_path m = Some b \<and> b \<noteq> [] \<and> (which_finds os b \<or> isfile os b))"
  by (auto simp: is_configured_def split: option.splits)

text \<open>
  C7 (amended). \<open>start\<close> called while the tracked process is alive returns
  \<open>started = True\<close>, spawns nothing and leaves the manager as it is. Otherwise, when not
  configured (no binary path, an empty one, or one that is neither found on the search
  path nor a file) it returns \<open>started = False\<close> with the reason
  "frps binary not configured" and spawns nothing. Otherwise it makes exactly one
  \<open>Popen\<close> call, for the binary (followed by \<open>-c\<close> and the config path if there is one)
  with both output streams discarded; it returns \<open>started = True\<close> and tracks the new
  process, or, when the launch raises an \<open>OSError\<close>, \<open>started = False\<close> with the error's
  text as the reason. After a start that reported success a process is tracked, and a
  second start while that process is alive spawns nothing.
\<close>

theorem frps_start_outcomes:
  "(process_alive os m \<longrightarrow> frps_start os m = (\<lparr>started = True, reason = None\<rparr>, [], m))
   \<and> (\<not> process_alive os m \<and> \<not> is_configured os m \<longrightarrow>
        frps_start os m
          = (\<lparr>started = False, reason = Some ''frps binary not configured''\<rparr>, [], m))
   \<and> (\<not> process_alive os m \<and> is_configured os m \<longrightarrow>
        (\<exists>b c. binary_path m = Some b \<and> b \<noteq> [] \<and> (which_finds os b \<or> isfile os b)
           \<and> cmd c = b # (case config_path m of Some p \<Rightarrow> if p \<noteq> [] then [''-c'', p] else []
                            | None \<Rightarrow> [])
           \<and> stdout c = DEVNULL \<and> stderr c = DEVNULL
           \<and> (case popen os c of
                 Inr p \<Rightarrow> frps_start os m
                            = (\<lparr>started = True, reason = None\<rparr>, [c], m\<lparr>process := Some p\<rparr>)
               | Inl exc \<Rightarrow> frps_start os m
                            = (\<lparr>started = False, reason = Some exc\<rparr>, [c], m))))
   \<and> (started (fst (frps_start os m)) \<longrightarrow>
        (\<exists>p. process (snd (snd (frps_start os m))) = Some p
           \<and> (poll_is_none os' p \<longrightarrow>
                frps_start os' (snd (snd (frps_start os m)))
                  = (\<lparr>started = True, reason = None\<rparr>, [], snd (snd (frps_start os m))))))
   \<and> (is_configured os m
        \<longleftrightarrow> (\<exists>b. binary_path m = Some b \<and> b \<noteq> [] \<and> (which_finds os b \<or> isfile os b)))"
proof -
  have a: "frps_start os m = (\<lparr>started = True, reason = None\<rparr>, [], m)" if "process_alive os m"
    using that by (simp add: frps_start_def process_alive_def)
  have b: "frps_start os m
      = (\<lparr>started = False, reason = Some ''frps binary not configured''\<rparr>, [], m)"
    if "\<not> process_alive os m \<and> \<not> is_configured os m"
    using that by (simp add: frps_start_def process_alive_def)
  have c: "\<exists>b c. binary_path m = Some b \<and> b \<noteq> [] \<and> (which_finds os b \<or> isfile os b)
           \<and> cmd c = b # (case config_path m of Some p \<Rightarrow> if p \<noteq> [] then [''-c'', p] else []
                            | None \<Rightarrow> [])
           \<and> stdout c = DEVNULL \<and> stderr c = DEVNULL
           \<and> (case popen os c of
                 Inr p \<Rightarrow> frps_start os m
                            = (\<lparr>started = True, reason = None\<rparr>, [c], m\<lparr>process := Some p\<rparr>)
               | Inl exc \<Rightarrow> frps_start os m
                            = (\<lparr>started = False, reason = Some exc\<rparr>, [c], m))"
    if h: "\<not> process_alive os m \<and> is_configured os m"
  proof -
    from h obtain b where b: "binary_path m = Some b" "b \<noteq> []" "which_finds os b \<or> isfile os b"
      by (auto simp: is_configured_iff)
    let ?c = "\<lparr>cmd = b # (case config_path m of Some p \<Rightarrow> if p \<noteq> [] then [''-c'', p] else []
                            | None \<Rightarrow> []), stdout = DEVNULL, stderr = DEVNULL\<rparr>"
    from h b have "case popen os ?c of
        Inr p \<Rightarrow> frps_start os m
                   = (\<lparr>started = True, reason = None\<rparr>, [?c], m\<lparr>process := Some p\<rparr>)
      | Inl exc \<Rightarrow> frps_start os m = (\<lparr>started = False, reason = Some exc\<rparr>, [?c], m)"
      by (simp add: frps_start_def process_alive_def Let_def split: sum.splits)
    with b show ?thesis by (intro exI [of _ b] exI [of _ ?c]) simp
  qed
  have d: "\<exists>p. process (snd (snd (frps_start os m))) = Some p
      \<and> (poll_is_none os' p \<longrightarrow>
           frps_start os' (snd (snd (frps_start os m)))
             = (\<lparr>started = True, reason = None\<rparr>, [], snd (snd (frps_start os m))))"
    if "started (fst (frps_start os m))"
    using that
    by (auto simp: frps_start_def Let_def split: if_splits sum.splits option.splits)
  from a b c d is_configured_iff [of os m] show ?thesis by blast
qed

theorem frps_start_outcomes_witness:
  "\<not> process_alive no_frps_os unconfigured_manager
   \<and> \<not> is_configured no_frps_os unconfigured_manager
   \<and> frps_start no_frps_os unconfigured_manager
       = (\<lparr>started = False, reason = Some ''frps binary not configured''\<rparr>, [],
          unconfigured_manager)
   \<and> is_configured frps_os frps_manager
   \<and> started (fst (frps_start frps_os frps_manager))
   \<and> process (snd (snd (frps_start frps_os frps_manager))) = Some 7
   \<and> process_alive frps_os (snd (snd (frps_start frps_os frps_manager)))
   \<and> fst (snd (frps_start frps_os (snd (snd (frps_start frps_os frps_manager))))) = []"
proof -
  have a: "\<not> process_alive no_frps_os unconfigured_manager"
    by (simp add: process_alive_def unconfigured_manager_def)
  have b: "\<not> is_configured no_frps_os unconfigured_manager"
    by (simp add: is_configured_def unconfigured_manager_def)
  have c: "is_configured frps_os frps_manager"
    by (simp add: is_configured_def frps_manager_def frps_os_def)
  have d: "started (fst (frps_start frps_os frps_manager))"
    by (simp add: frps_start_def is_configured_def frps_manager_def frps_os_def)
  have e: "process (snd (snd (frps_start frps_os frps_manager))) = Some 7"
    by (simp add: frps_start_def is_configured_def frps_manager_def frps_os_def)
  have f: "poll_is_none frps_os 7" by (simp add: frps_os_def)
  from frps_start_outcomes [of no_frps_os unconfigured_manager frps_os]
    frps_start_outcomes [of frps_os frps_manager frps_os] a b c d e f
  show ?thesis by (simp add: process_alive_def)
qed

theorem frps_start_outcomes_counterexample:
  "\<not> is_configured no_frps_os unconfigured_manager
   \<and> reason (fst (frps_start no_frps_os unconfigured_manager)) \<noteq> Some ''not configured''"
  by (simp add: frps_start_def is_configured_def unconfigured_manager_def)

section \<open>The notification hub\<close>

lemma prune_failed:
  "\<forall>x\<in>set pre. ok x \<Longrightarrow>
     fold remove1 (filter (\<lambda>w. \<not> ok w) ws) (pre @ ws) = pre @ filter ok ws"
proof (induction ws arbitrary: pre)
  case Nil
  then show ?case by simp
next
  case (Cons w ws)
  show ?case
  proof (cases "ok w")
    case True
    with Cons.prems have "\<forall>x\<in>set (pre @ [w]). ok x" by simp
    from Cons.IH [OF this] True show ?thesis by simp
  next
    case False
    with Cons.prems have "w \<notin> set pre" by auto
    then have "remove1 w (pre @ w # ws) = pre @ ws" by (simp add: remove1_append)
    with False Cons.IH [OF Cons.prems] show ?thesis by simp
  qed
qed

lemma prune_failed_all: "fold remove1 (filter (\<lambda>w. \<not> ok w) ws) ws = filter ok ws"
  using prune_failed [of "[]" ok ws] by simp

text \<open>
  C8 (amended). When the room has an entry in the registry of connections (even an
  empty list), \<open>notify_room_clients\<close> sets the room's entry of the active-developer cache
  to the given developer, sends \<open>{type: "commit", room, active_developer}\<close> to every
  registered connection of the room in order, and keeps exactly the connections whose
  send did not fail; other rooms' entries stay as they are. When the room has no entry
  in the registry, nothing is sent and cache and registry are unchanged.
\<close>

theorem notify_room_clients_effect:
  "(map_of (notification_clients h) room_code = None \<longrightarrow>
      notify_room_clients send_json room_code active_developer h = ([], h))
   \<and> (map_of (notification_clients h) room_code = Some clients \<longrightarrow>
        fst (notify_room_clients send_json room_code active_developer h)
          = map (\<lambda>ws. (ws, JObj [(''type'', JStr ''commit''), (''room'', JStr room_code),
                                  (''active_developer'', JStr active_developer)])) clients
        \<and> map_of (active_developer_cache
             (snd (notify_room_clients send_json room_code active_developer h))) room_code
            = Some active_developer
        \<and> map_of (notification_clients
             (snd (notify_room_clients send_json room_code active_developer h))) room_code
            = Some (filter (\<lambda>ws. send_json ws (commit_message_for room_code active_developer))
                      clients)
        \<and> (other \<noteq> room_code \<longrightarrow>
             map_of (active_developer_cache
               (snd (notify_room_clients send_json room_code active_developer h))) other
              = map_of (active_developer_cache h) other
             \<and> map_of (notification_clients
               (snd (notify_room_clients send_json room_code active_developer h))) other
              = map_of (notification_clients h) other))"
proof -
  have "notify_room_clients send_json room_code active_developer h = ([], h)"
    if "map_of (notification_clients h) room_code = None"
    using that by (simp add: notify_room_clients_def)
  moreover have "notify_room_clients send_json room_code active_developer h
      = (map (\<lambda>ws. (ws, commit_message_for room_code active_developer)) clients,
         h\<lparr>active_developer_cache :=
              AList.update room_code active_developer (active_developer_cache h),
            notification_clients :=
              AList.update room_code
                (filter (\<lambda>ws. send_json ws (commit_message_for room_code active_developer))
                   clients)
                (notification_clients h)\<rparr>)"
    if "map_of (notification_clients h) room_code = Some clients"
    using that by (simp add: notify_room_clients_def Let_def prune_failed_all)
  ultimately show ?thesis
    by (simp add: commit_message_for_def update_conv')
qed

theorem notify_room_clients_effect_witness:
  "map_of (notification_clients demo_hub) ''demo'' = Some [1, 2, 3]
   \<and> map (fst) (fst (notify_room_clients send_except_2 ''demo'' ''alice'' demo_hub)) = [1, 2, 3]
   \<and> map_of (active_developer_cache
        (snd (notify_room_clients send_except_2 ''demo'' ''alice'' demo_hub))) ''demo''
       = Some ''alice''
   \<and> map_of (notification_clients
        (snd (notify_room_clients send_except_2 ''demo'' ''alice'' demo_hub))) ''demo''
       = Some [1, 3]
   \<and> map_of (notification_clients empty_hub) ''demo'' = None
   \<and> notify_room_clients send_always ''demo'' ''alice'' empty_hub = ([], empty_hub)"
proof -
  have a: "map_of (notification_clients demo_hub) ''demo'' = Some [1, 2, 3]"
    by (simp add: demo_hub_def)
  have b: "map_of (notification_clients empty_hub) ''demo'' = None"
    by (simp add: empty_hub_def)
  from notify_room_clients_effect [of demo_hub "''demo''" send_except_2 "''alice''" "[1, 2, 3]"
      "''other''"]
    notify_room_clients_effect [of empty_hub "''demo''" send_always "''alice''" "[]" "''other''"]
    a b
  show ?thesis by (simp add: send_except_2_def)
qed

theorem notify_room_clients_effect_counterexample:
  "map_of (active_developer_cache
      (snd (notify_room_clients send_always ''demo'' ''alice'' empty_hub))) ''demo''
     \<noteq> Some ''alice''"
  by (simp add: notify_room_clients_def empty_hub_def)

section \<open>Participants in the status reply\<close>

lemma participant_json_eq:
  "participant_json (d, p)
     = JObj [(''developer_id'', JStr d), (''subdomain_url'', JStr (subdomain_url_of p)),
             (''connected'', JBool (is_connected p))]"
  by (cases p) simp_all

lemma requested_room_query:
  "validate_room_code (JStr code) = Inr code \<Longrightarrow> requested_room (room_query code) = Some (Inr code)"
  using validate_room_code_nonempty [of "JStr code" code]
  by (simp add: requested_room_def room_query_def del: validate_room_code.simps)

lemma get_room_status_participants:
  assumes "requested_room q = Some (Inr code)" "map_of rooms code = Some room"
  shows "field (get_room_status q rooms) ''participants''
           = Some (JList (map participant_json (participants room)))"
proof -
  from assms(1) obtain rc where "map_of (args q) ''room'' = Some rc" "rc \<noteq> []"
    "validate_room_code (JStr rc) = Inr code"
    by (auto simp: requested_room_def split: option.splits if_splits)
  with assms(2) show ?thesis
    by (simp add: get_room_status_def Let_def del: validate_room_code.simps)
qed

lemma refused_status:
  "escaped r \<or> error_with_message r \<or> error_without_message r \<Longrightarrow>
     status r \<noteq> 200 \<and> status r \<noteq> 201"
  by (auto simp: error_with_message_def error_without_message_def escaped_def)

lemma subscript_Inr:
  "subscript data k = Inr v \<longleftrightarrow> (\<exists>kvs. data = JObj kvs \<and> map_of kvs k = Some v)"
  by (cases data) (auto split: option.splits)

lemma body_field_Some:
  "body_field req k = Some v \<longleftrightarrow> (\<exists>kvs. get_json req = Some (JObj kvs) \<and> map_of kvs k = Some v)"
  by (auto simp: body_field_def split: option.splits json.splits)

lemma gate_is_json: "validate_request_json fs req = None \<Longrightarrow> is_json req"
  by (auto simp: validate_request_json_def split: if_splits)

lemma gate_passes:
  assumes "is_json req" "get_json req = Some (JObj kvs)" "\<forall>f\<in>set fs. map_of kvs f \<noteq> None"
    "fs \<noteq> []"
  shows "validate_request_json fs req = None"
proof -
  from assms(3,4) have ne: "kvs \<noteq> []" by (cases fs) auto
  have "f \<in> set (map fst kvs)" if "f \<in> set fs" for f
  proof -
    from assms(3) that obtain v where "map_of kvs f = Some v" by auto
    then have "(f, v) \<in> set kvs" by (rule map_of_SomeD)
    then show ?thesis by force
  qed
  then have "filter (\<lambda>f. json_contains (JObj kvs) f = Some False) fs = []"
    by (auto simp: filter_empty_conv)
  with assms(1,2) ne show ?thesis
    by (simp add: validate_request_json_def Let_def list_ex_iff)
qed

lemma create_room_inputs_body:
  "create_room_inputs data = Inr (code, d, u) \<longleftrightarrow>
     (\<exists>kvs vp vd vu. data = JObj kvs
        \<and> map_of kvs ''project_name'' = Some vp \<and> validate_project_name vp = Inr code
        \<and> map_of kvs ''developer_id'' = Some vd \<and> validate_developer_id vd = Inr d
        \<and> map_of kvs ''subdomain_url'' = Some vu \<and> validate_subdomain_url vu = Inr u)"
  unfolding create_room_inputs_def and_then_Inr checked_Inr subscript_Inr by auto

lemma join_room_inputs_body:
  "join_room_inputs data = Inr (code, d, u) \<longleftrightarrow>
     (\<exists>kvs vc vd vu. data = JObj kvs
        \<and> map_of kvs ''room_code'' = Some vc \<and> validate_room_code vc = Inr code
        \<and> map_of kvs ''developer_id'' = Some vd \<and> validate_developer_id vd = Inr d
        \<and> map_of kvs ''subdomain_url'' = Some vu \<and> validate_subdomain_url vu = Inr u)"
  unfolding join_room_inputs_def and_then_Inr checked_Inr subscript_Inr by auto

lemma create_room_accepts:
  assumes "is_json req"
    and "body_field req ''project_name'' = Some vp" "validate_project_name vp = Inr code"
    and "body_field req ''developer_id'' = Some vd" "validate_developer_id vd = Inr d"
    and "body_field req ''subdomain_url'' = Some vu" "validate_subdomain_url vu = Inr u"
    and "map_of rooms code = None"
  shows "create_room req rooms
    = (Reply 201 (JObj [(''room_code'', JStr code), (''public_url'', JStr (public_url code))]),
       [], AList.update code \<lparr>participants = [(d, Legacy u)], commits = []\<rparr> rooms)"
proof -
  from assms(2,4,6) obtain kvs where kvs: "get_json req = Some (JObj kvs)"
    "map_of kvs ''project_name'' = Some vp" "map_of kvs ''developer_id'' = Some vd"
    "map_of kvs ''subdomain_url'' = Some vu"
    by (auto simp: body_field_Some)
  have gate: "validate_request_json [''project_name'', ''developer_id'', ''subdomain_url''] req
      = None"
    using assms(1) kvs by (intro gate_passes [of req kvs]) simp_all
  have "create_room_inputs (JObj kvs) = Inr (code, d, u)"
    using kvs assms(3,5,7) unfolding create_room_inputs_body by blast
  with gate kvs(1) assms(8) show ?thesis by (simp add: create_room_def)
qed

lemma create_room_accepted:
  assumes "create_room req rooms = (r, ns, rooms')" "status r = 201"
  shows "\<exists>vp vd vu code d u. is_json req
    \<and> body_field req ''project_name'' = Some vp \<and> validate_project_name vp = Inr code
    \<and> body_field req ''developer_id'' = Some vd \<and> validate_developer_id vd = Inr d
    \<and> body_field req ''subdomain_url'' = Some vu \<and> validate_subdomain_url vu = Inr u
    \<and> map_of rooms code = None"
proof (cases "validate_request_json [''project_name'', ''developer_id'', ''subdomain_url''] req")
  case (Some g)
  with assms(1) have "r = g" by (simp add: create_room_def)
  moreover from gate_reply [OF Some] have "status g \<noteq> 201"
    using refused_status [of g] by blast
  ultimately show ?thesis using assms(2) by simp
next
  case None
  then obtain data where data: "get_json req = Some data" by (blast dest: gate_passed)
  from None have j: "is_json req" by (rule gate_is_json)
  show ?thesis
  proof (cases "create_room_inputs data")
    case (Inl e)
    with None data assms(1) have "r = e" by (simp add: create_room_def)
    moreover from early_reply_shape [OF create_room_inputs_Inl [OF Inl]] have "status e \<noteq> 201"
      using refused_status [of e] by blast
    ultimately show ?thesis using assms(2) by simp
  next
    case (Inr t)
    obtain code d u where t: "t = (code, d, u)" by (cases t)
    show ?thesis
    proof (cases "map_of rooms code")
      case (Some x)
      with None data Inr t assms(1) have "status r = 409" by (auto simp: create_room_def)
      with assms(2) show ?thesis by simp
    next
      case nf: None
      from Inr t have "create_room_inputs data = Inr (code, d, u)" by simp
      then obtain kvs vp vd vu where "data = JObj kvs"
        "map_of kvs ''project_name'' = Some vp" "validate_project_name vp = Inr code"
        "map_of kvs ''developer_id'' = Some vd" "validate_developer_id vd = Inr d"
        "map_of kvs ''subdomain_url'' = Some vu" "validate_subdomain_url vu = Inr u"
        by (auto simp: create_room_inputs_body)
      with data j nf show ?thesis unfolding body_field_Some by blast
    qed
  qed
qed

lemma join_room_accepts:
  assumes "is_json req"
    and "body_field req ''room_code'' = Some vc" "validate_room_code vc = Inr code"
    and "body_field req ''developer_id'' = Some vd" "validate_developer_id vd = Inr d"
    and "body_field req ''subdomain_url'' = Some vu" "validate_subdomain_url vu = Inr u"
    and "map_of rooms code = Some room"
  shows "join_room req rooms
    = (Reply 200 (JObj [(''status'', JStr (if map_of (participants room) d \<noteq> None
                                           then ''reconnected'' else ''success'')),
                        (''public_url'', JStr (public_url code))]),
       [RoomUpdate code],
       AList.update code
         (room\<lparr>participants := AList.update d (Structured u True) (participants room)\<rparr>) rooms)"
proof -
  from assms(2,4,6) obtain kvs where kvs: "get_json req = Some (JObj kvs)"
    "map_of kvs ''room_code'' = Some vc" "map_of kvs ''developer_id'' = Some vd"
    "map_of kvs ''subdomain_url'' = Some vu"
    by (auto simp: body_field_Some)
  have gate: "validate_request_json [''room_code'', ''developer_id'', ''subdomain_url''] req
      = None"
    using assms(1) kvs by (intro gate_passes [of req kvs]) simp_all
  have "join_room_inputs (JObj kvs) = Inr (code, d, u)"
    using kvs assms(3,5,7) unfolding join_room_inputs_body by blast
  with gate kvs(1) assms(8) show ?thesis by (simp add: join_room_def Let_def)
qed

lemma join_room_accepted:
  assumes "join_room req rooms = (r, ns, rooms')" "status r = 200"
  shows "\<exists>vc vd vu code d u room. is_json req
    \<and> body_field req ''room_code'' = Some vc \<and> validate_room_code vc = Inr code
    \<and> body_field req ''developer_id'' = Some vd \<and> validate_developer_id vd = Inr d
    \<and> body_field req ''subdomain_url'' = Some vu \<and> validate_subdomain_url vu = Inr u
    \<and> map_of rooms code = Some room"
proof (cases "validate_request_json [''room_code'', ''developer_id'', ''subdomain_url''] req")
  case (Some g)
  with assms(1) have "r = g" by (simp add: join_room_def)
  moreover from gate_reply [OF Some] have "status g \<noteq> 200"
    using refused_status [of g] by blast
  ultimately show ?thesis using assms(2) by simp
next
  case None
  then obtain data where data: "get_json req = Some data" by (blast dest: gate_passed)
  from None have j: "is_json req" by (rule gate_is_json)
  show ?thesis
  proof (cases "join_room_inputs data")
    case (Inl e)
    with None data assms(1) have "r = e" by (simp add: join_room_def)
    moreover from early_reply_shape [OF join_room_inputs_Inl [OF Inl]] have "status e \<noteq> 200"
      using refused_status [of e] by blast
    ultimately show ?thesis using assms(2) by simp
  next
    case (Inr t)
    obtain code d u where t: "t = (code, d, u)" by (cases t)
    show ?thesis
    proof (cases "map_of rooms code")
      case nf: None
      with None data Inr t assms(1) have "status r = 404" by (auto simp: join_room_def)
      with assms(2) show ?thesis by simp
    next
      case (Some room)
      from Inr t have "join_room_inputs data = Inr (code, d, u)" by simp
      then obtain kvs vc vd vu where "data = JObj kvs"
        "map_of kvs ''room_code'' = Some vc" "validate_room_code vc = Inr code"
        "map_of kvs ''developer_id'' = Some vd" "validate_developer_id vd = Inr d"
        "map_of kvs ''subdomain_url'' = Some vu" "validate_subdomain_url vu = Inr u"
        by (auto simp: join_room_inputs_body)
      with data j Some show ?thesis unfolding body_field_Some by blast
    qed
  qed
qed

text \<open>
  C4. A \<open>create_room\<close> request whose three fields validate and whose room code is new
  answers 201 and adds exactly one room, whose only participant is the creating
  developer, stored as the bare validated URL string; the status endpoint lists that
  participant with \<open>connected: true\<close>. A \<open>join_room\<close> request whose three fields validate
  and whose room exists answers 200 and stores the record
  \<open>{subdomain_url, connected: True}\<close> under the joining developer's name in that room;
  the status endpoint lists that participant with \<open>connected: true\<close> as well. No other
  request gets 201 from \<open>create_room\<close> or 200 from \<open>join_room\<close>. For every room the
  status endpoint lists the participants in order, a bare-string entry with
  \<open>connected: true\<close> and a record with its stored flag.
\<close>

theorem participant_shapes:
  "(is_json req
      \<and> body_field req ''project_name'' = Some vp \<and> validate_project_name vp = Inr code
      \<and> body_field req ''developer_id'' = Some vd \<and> validate_developer_id vd = Inr d
      \<and> body_field req ''subdomain_url'' = Some vu \<and> validate_subdomain_url vu = Inr u
      \<and> map_of rooms code = None \<longrightarrow>
        create_room req rooms
          = (Reply 201 (JObj [(''room_code'', JStr code),
                              (''public_url'', JStr (public_url code))]),
             [], AList.update code \<lparr>participants = [(d, Legacy u)], commits = []\<rparr> rooms)
        \<and> map_of (AList.update code \<lparr>participants = [(d, Legacy u)], commits = []\<rparr> rooms) code
            = Some \<lparr>participants = [(d, Legacy u)], commits = []\<rparr>
        \<and> field (get_room_status (room_query code)
               (AList.update code \<lparr>participants = [(d, Legacy u)], commits = []\<rparr> rooms))
             ''participants''
            = Some (JList [JObj [(''developer_id'', JStr d), (''subdomain_url'', JStr u),
                                 (''connected'', JBool True)]]))
   \<and> (create_room req rooms = (r, ns, rooms') \<and> status r = 201 \<longrightarrow>
        (\<exists>vp vd vu code d u. is_json req
           \<and> body_field req ''project_name'' = Some vp \<and> validate_project_name vp = Inr code
           \<and> body_field req ''developer_id'' = Some vd \<and> validate_developer_id vd = Inr d
           \<and> body_field req ''subdomain_url'' = Some vu \<and> validate_subdomain_url vu = Inr u
           \<and> map_of rooms code = None))
   \<and> (is_json req
      \<and> body_field req ''room_code'' = Some vc \<and> validate_room_code vc = Inr code
      \<and> body_field req ''developer_id'' = Some vd \<and> validate_developer_id vd = Inr d
      \<and> body_field req ''subdomain_url'' = Some vu \<and> validate_subdomain_url vu = Inr u
      \<and> map_of rooms code = Some room \<longrightarrow>
        join_room req rooms
          = (Reply 200 (JObj [(''status'', JStr (if map_of (participants room) d \<noteq> None
                                                 then ''reconnected'' else ''success'')),
                              (''public_url'', JStr (public_url code))]),
             [RoomUpdate code],
             AList.update code
               (room\<lparr>participants := AList.update d (Structured u True) (participants room)\<rparr>)
               rooms)
        \<and> map_of (AList.update code
               (room\<lparr>participants := AList.update d (Structured u True) (participants room)\<rparr>)
               rooms) code
            = Some (room\<lparr>participants :=
                      AList.update d (Structured u True) (participants room)\<rparr>)
        \<and> map_of (AList.update d (Structured u True) (participants room)) d
            = Some (Structured u True)
        \<and> (requested_room q = Some (Inr code) \<longrightarrow>
             field (get_room_status q (AList.update code
               (room\<lparr>participants := AList.update d (Structured u True) (participants room)\<rparr>)
               rooms)) ''participants''
              = Some (JList (map participant_json
                  (AList.update d (Structured u True) (participants room)))))
        \<and> (reachable rooms \<longrightarrow> requested_room (room_query code) = Some (Inr code))
        \<and> JObj [(''developer_id'', JStr d), (''subdomain_url'', JStr u),
                 (''connected'', JBool True)]
            \<in> set (map participant_json
                 (AList.update d (Structured u True) (participants room))))
   \<and> (join_room req rooms = (r, ns, rooms') \<and> status r = 200 \<longrightarrow>
        (\<exists>vc vd vu code d u room. is_json req
           \<and> body_field req ''room_code'' = Some vc \<and> validate_room_code vc = Inr code
           \<and> body_field req ''developer_id'' = Some vd \<and> validate_developer_id vd = Inr d
           \<and> body_field req ''subdomain_url'' = Some vu \<and> validate_subdomain_url vu = Inr u
           \<and> map_of rooms code = Some room))
   \<and> (requested_room q = Some (Inr code) \<and> map_of rooms code = Some room \<longrightarrow>
        field (get_room_status q rooms) ''participants''
          = Some (JList (map participant_json (participants room))))
   \<and> participant_json (d, Legacy u)
       = JObj [(''developer_id'', JStr d), (''subdomain_url'', JStr u),
               (''connected'', JBool True)]
   \<and> participant_json (d, Structured u c)
       = JObj [(''developer_id'', JStr d), (''subdomain_url'', JStr u),
               (''connected'', JBool c)]"
proof -
  let ?new = "\<lparr>participants = [(d, Legacy u)], commits = []\<rparr>"
  let ?ps = "AList.update d (Structured u True) (participants room)"
  let ?joined = "AList.update code (room\<lparr>participants := ?ps\<rparr>) rooms"
  have a: "create_room req rooms
          = (Reply 201 (JObj [(''room_code'', JStr code),
                              (''public_url'', JStr (public_url code))]),
             [], AList.update code ?new rooms)
        \<and> map_of (AList.update code ?new rooms) code = Some ?new
        \<and> field (get_room_status (room_query code) (AList.update code ?new rooms))
             ''participants''
            = Some (JList [JObj [(''developer_id'', JStr d), (''subdomain_url'', JStr u),
                                 (''connected'', JBool True)]])"
    if h: "is_json req
      \<and> body_field req ''project_name'' = Some vp \<and> validate_project_name vp = Inr code
      \<and> body_field req ''developer_id'' = Some vd \<and> validate_developer_id vd = Inr d
      \<and> body_field req ''subdomain_url'' = Some vu \<and> validate_subdomain_url vu = Inr u
      \<and> map_of rooms code = None"
  proof -
    from h have "create_room req rooms
          = (Reply 201 (JObj [(''room_code'', JStr code),
                              (''public_url'', JStr (public_url code))]),
             [], AList.update code ?new rooms)"
      using create_room_accepts [of req vp code vd d vu u rooms] by blast
    moreover have look: "map_of (AList.update code ?new rooms) code = Some ?new"
      by (simp add: update_conv')
    moreover from h have "validate_room_code (JStr code) = Inr code"
      by (blast intro: derived_code_fixed)
    then have "requested_room (room_query code) = Some (Inr code)"
      by (rule requested_room_query)
    from get_room_status_participants [OF this look]
    have "field (get_room_status (room_query code) (AList.update code ?new rooms))
             ''participants''
            = Some (JList [JObj [(''developer_id'', JStr d), (''subdomain_url'', JStr u),
                                 (''connected'', JBool True)]])"
      by simp
    ultimately show ?thesis by blast
  qed
  have b: "\<exists>vp vd vu code d u. is_json req
           \<and> body_field req ''project_name'' = Some vp \<and> validate_project_name vp = Inr code
           \<and> body_field req ''developer_id'' = Some vd \<and> validate_developer_id vd = Inr d
           \<and> body_field req ''subdomain_url'' = Some vu \<and> validate_subdomain_url vu = Inr u
           \<and> map_of rooms code = None"
    if "create_room req rooms = (r, ns, rooms') \<and> status r = 201"
    using that by (blast intro: create_room_accepted)
  have c: "join_room req rooms
          = (Reply 200 (JObj [(''status'', JStr (if map_of (participants room) d \<noteq> None
                                                 then ''reconnected'' else ''success'')),
                              (''public_url'', JStr (public_url code))]),
             [RoomUpdate code], ?joined)
        \<and> map_of ?joined code = Some (room\<lparr>participants := ?ps\<rparr>)
        \<and> map_of ?ps d = Some (Structured u True)
        \<and> (requested_room q = Some (Inr code) \<longrightarrow>
             field (get_room_status q ?joined) ''participants''
              = Some (JList (map participant_json ?ps)))
        \<and> (reachable rooms \<longrightarrow> requested_room (room_query code) = Some (Inr code))
        \<and> JObj [(''developer_id'', JStr d), (''subdomain_url'', JStr u),
                 (''connected'', JBool True)]
            \<in> set (map participant_json ?ps)"
    if h: "is_json req
      \<and> body_field req ''room_code'' = Some vc \<and> validate_room_code vc = Inr code
      \<and> body_field req ''developer_id'' = Some vd \<and> validate_developer_id vd = Inr d
      \<and> body_field req ''subdomain_url'' = Some vu \<and> validate_subdomain_url vu = Inr u
      \<and> map_of rooms code = Some room"
  proof -
    from h have j: "join_room req rooms
          = (Reply 200 (JObj [(''status'', JStr (if map_of (participants room) d \<noteq> None
                                                 then ''reconnected'' else ''success'')),
                              (''public_url'', JStr (public_url code))]),
             [RoomUpdate code], ?joined)"
      using join_room_accepts [of req vc code vd d vu u rooms room] by blast
    have look: "map_of ?joined code = Some (room\<lparr>participants := ?ps\<rparr>)"
      by (simp add: update_conv')
    have p: "map_of ?ps d = Some (Structured u True)" by (simp add: update_conv')
    have s: "field (get_room_status q ?joined) ''participants''
              = Some (JList (map participant_json ?ps))"
      if "requested_room q = Some (Inr code)"
      using get_room_status_participants [OF that look] by simp
    have v: "requested_room (room_query code) = Some (Inr code)" if "reachable rooms"
    proof -
      from that h have "room_ok (code, room)"
        by (blast intro: rooms_ok_lookup reachable_rooms_ok)
      then show ?thesis by (intro requested_room_query) (simp add: room_ok_def)
    qed
    from p have "(d, Structured u True) \<in> set ?ps" by (rule map_of_SomeD)
    then have "participant_json (d, Structured u True) \<in> set (map participant_json ?ps)"
      by (simp only: set_map image_eqI)
    then have m: "JObj [(''developer_id'', JStr d), (''subdomain_url'', JStr u),
                 (''connected'', JBool True)] \<in> set (map participant_json ?ps)"
      by simp
    from j look p s v m show ?thesis by blast
  qed
  have e: "\<exists>vc vd vu code d u room. is_json req
           \<and> body_field req ''room_code'' = Some vc \<and> validate_room_code vc = Inr code
           \<and> body_field req ''developer_id'' = Some vd \<and> validate_developer_id vd = Inr d
           \<and> body_field req ''subdomain_url'' = Some vu \<and> validate_subdomain_url vu = Inr u
           \<and> map_of rooms code = Some room"
    if "join_room req rooms = (r, ns, rooms') \<and> status r = 200"
    using that by (blast intro: join_room_accepted)
  have f: "field (get_room_status q rooms) ''participants''
          = Some (JList (map participant_json (participants room)))"
    if "requested_room q = Some (Inr code) \<and> map_of rooms code = Some room"
    using that by (blast intro: get_room_status_participants)
  have g: "participant_json (d, Legacy u)
       = JObj [(''developer_id'', JStr d), (''subdomain_url'', JStr u),
               (''connected'', JBool True)]
     \<and> participant_json (d, Structured u c)
       = JObj [(''developer_id'', JStr d), (''subdomain_url'', JStr u),
               (''connected'', JBool c)]"
    by simp
  from a b c e f g show ?thesis by blast
qed

theorem participant_shapes_witness:
  "is_json create_demo
   \<and> body_field create_demo ''project_name'' = Some (JStr ''demo'')
   \<and> validate_project_name (JStr ''demo'') = Inr ''demo''
   \<and> body_field create_demo ''developer_id'' = Some (JStr ''alice'')
   \<and> validate_developer_id (JStr ''alice'') = Inr ''alice''
   \<and> body_field create_demo ''subdomain_url'' = Some (JStr alice_url)
   \<and> validate_subdomain_url (JStr alice_url) = Inr alice_url
   \<and> create_room create_demo []
      = (Reply 201 (JObj [(''room_code'', JStr ''demo''),
                          (''public_url'', JStr (public_url ''demo''))]), [], demo_created)
   \<and> field (get_room_status (room_query ''demo'') demo_created) ''participants''
       = Some (JList [JObj [(''developer_id'', JStr ''alice''),
            (''subdomain_url'', JStr alice_url), (''connected'', JBool True)]])
   \<and> reachable demo_created
   \<and> is_json join_demo
   \<and> body_field join_demo ''room_code'' = Some (JStr ''demo'')
   \<and> validate_room_code (JStr ''demo'') = Inr ''demo''
   \<and> body_field join_demo ''developer_id'' = Some (JStr ''bob'')
   \<and> validate_developer_id (JStr ''bob'') = Inr ''bob''
   \<and> body_field join_demo ''subdomain_url'' = Some (JStr bob_url)
   \<and> validate_subdomain_url (JStr bob_url) = Inr bob_url
   \<and> join_room join_demo demo_created
       = (Reply 200 (JObj [(''status'', JStr ''success''),
                           (''public_url'', JStr (public_url ''demo''))]),
          [RoomUpdate ''demo''], demo_joined)
   \<and> requested_room (room_query ''demo'') = Some (Inr ''demo'')
   \<and> field (get_room_status (room_query ''demo'') demo_joined) ''participants''
       = Some (JList [JObj [(''developer_id'', JStr ''alice''),
            (''subdomain_url'', JStr alice_url), (''connected'', JBool True)],
          JObj [(''developer_id'', JStr ''bob''),
            (''subdomain_url'', JStr bob_url), (''connected'', JBool True)]])"
proof -
  let ?alice = "\<lparr>participants = [(''alice'', Legacy alice_url)], commits = []\<rparr>"
  have c1: "is_json create_demo" by (simp add: create_demo_def json_post_def)
  have c2: "body_field create_demo ''project_name'' = Some (JStr ''demo'')"
    by (simp add: body_field_def create_demo_def json_post_def)
  have c3: "validate_project_name (JStr ''demo'') = Inr ''demo''" by code_simp
  have c4: "body_field create_demo ''developer_id'' = Some (JStr ''alice'')"
    by (simp add: body_field_def create_demo_def json_post_def)
  have c5: "validate_developer_id (JStr ''alice'') = Inr ''alice''" by code_simp
  have c6: "body_field create_demo ''subdomain_url'' = Some (JStr alice_url)"
    by (simp add: body_field_def create_demo_def json_post_def)
  have c7: "validate_subdomain_url (JStr alice_url) = Inr alice_url" by code_simp
  have c8: "map_of [] ''demo'' = (None :: room option)" by simp
  have created: "AList.update ''demo'' ?alice [] = demo_created"
    by (simp add: demo_created_def)
  note t1 = participant_shapes [where req = create_demo and rooms = "[]"
      and vp = "JStr ''demo''" and code = "''demo''" and vd = "JStr ''alice''"
      and d = "''alice''" and vu = "JStr alice_url" and u = alice_url
      and r = "Reply 201 (JObj [(''room_code'', JStr ''demo''),
                                (''public_url'', JStr (public_url ''demo''))])"
      and ns = "[]" and rooms' = demo_created and vc = "JStr ''demo''"
      and room = ?alice and q = "room_query ''demo''" and c = True]
  from t1 c1 c2 c3 c4 c5 c6 c7 c8
  have a: "create_room create_demo []
      = (Reply 201 (JObj [(''room_code'', JStr ''demo''),
                          (''public_url'', JStr (public_url ''demo''))]), [], demo_created)
    \<and> field (get_room_status (room_query ''demo'') demo_created) ''participants''
       = Some (JList [JObj [(''developer_id'', JStr ''alice''),
            (''subdomain_url'', JStr alice_url), (''connected'', JBool True)]])"
    unfolding created by blast
  then have reach: "reachable demo_created"
    using reachable.step [OF reachable.start, of "''key''" urlparse_netloc "CreateRoom create_demo"]
    by simp
  have j1: "is_json join_demo" by (simp add: join_demo_def json_post_def)
  have j2: "body_field join_demo ''room_code'' = Some (JStr ''demo'')"
    by (simp add: body_field_def join_demo_def json_post_def)
  have j3: "validate_room_code (JStr ''demo'') = Inr ''demo''" by code_simp
  have j4: "body_field join_demo ''developer_id'' = Some (JStr ''bob'')"
    by (simp add: body_field_def join_demo_def json_post_def)
  have j5: "validate_developer_id (JStr ''bob'') = Inr ''bob''" by code_simp
  have j6: "body_field join_demo ''subdomain_url'' = Some (JStr bob_url)"
    by (simp add: body_field_def join_demo_def json_post_def)
  have j7: "validate_subdomain_url (JStr bob_url) = Inr bob_url" by code_simp
  have j8: "map_of demo_created ''demo'' = Some ?alice" by (simp add: demo_created_def)
  have joined: "AList.update ''demo''
      (?alice\<lparr>participants := AList.update ''bob'' (Structured bob_url True)
         (participants ?alice)\<rparr>) demo_created = demo_joined"
    by (simp add: demo_created_def demo_joined_def)
  have ps: "AList.update ''bob'' (Structured bob_url True) (participants ?alice)
      = [(''alice'', Legacy alice_url), (''bob'', Structured bob_url True)]"
    by simp
  have fresh: "map_of (participants ?alice) ''bob'' = None" by simp
  note t2 = participant_shapes [where req = join_demo and rooms = demo_created
      and vp = "JStr ''demo''" and code = "''demo''" and vd = "JStr ''bob''"
      and d = "''bob''" and vu = "JStr bob_url" and u = bob_url
      and r = "Reply 200 (JObj [(''status'', JStr ''success''),
                                (''public_url'', JStr (public_url ''demo''))])"
      and ns = "[RoomUpdate ''demo'']" and rooms' = demo_joined and vc = "JStr ''demo''"
      and room = ?alice and q = "room_query ''demo''" and c = True]
  from t2 j1 j2 j3 j4 j5 j6 j7 j8 reach
  have b: "join_room join_demo demo_created
       = (Reply 200 (JObj [(''status'', JStr (if map_of (participants ?alice) ''bob'' \<noteq> None
                                              then ''reconnected'' else ''success'')),
                           (''public_url'', JStr (public_url ''demo''))]),
          [RoomUpdate ''demo''], demo_joined)
    \<and> requested_room (room_query ''demo'') = Some (Inr ''demo'')
    \<and> field (get_room_status (room_query ''demo'') demo_joined) ''participants''
       = Some (JList (map participant_json
           (AList.update ''bob'' (Structured bob_url True) (participants ?alice))))"
    unfolding joined by blast
  from a b reach c1 c2 c3 c4 c5 c6 c7 j1 j2 j3 j4 j5 j6 j7 show ?thesis
    by (simp only: ps fresh) simp
qed

end
